theory Spec2Isabelle
  imports Main "HOL-Library.Sublist"
begin

section \<open>The METAR scraper (go/scraping/cmd/metar\_scraper/main.go)\<close>

text \<open>
  The program downloads a gzip-compressed CSV file, checks its six header lines against a
  list of regular expressions, and upserts every following line into a table keyed by
  (station, time), all inside one transaction.

  The Go standard library and the database are not part of the repository. What the
  program asks of them is collected in the record \<open>env\<close>: the CSV reader, the time
  parser and the failures the operating system, the network and the database may report.
  Every theorem holds for every \<open>env\<close>. The regular expressions are constants of the
  source, so their matching is modelled here, for the constructs the source uses.
\<close>

subsection \<open>Regular expressions of the header\<close>

text \<open>
  A compiled pattern is a concatenation of items: \<open>^\<close>, \<open>$\<close>, a literal string and
  \<open>[0-9]*\<close>. Without the multi-line flag, \<open>^\<close> and \<open>$\<close> match at the beginning and at
  the end of the text only.
\<close>

datatype rx = BeginText | EndText | Lit string | DigitStar

type_synonym regexp = "rx list"

definition is_digit :: "char \<Rightarrow> bool" where
  "is_digit c = (c \<in> set ''0123456789'')"

text \<open>
  \<open>match_at r at_start s\<close>: the pattern \<open>r\<close> matches a prefix of \<open>s\<close>, where
  \<open>at_start\<close> says whether \<open>s\<close> is the whole text.
\<close>

fun match_at :: "regexp \<Rightarrow> bool \<Rightarrow> string \<Rightarrow> bool" where
  "match_at [] at_start s = True"
| "match_at (BeginText # r) at_start s = (at_start \<and> match_at r at_start s)"
| "match_at (EndText # r) at_start s = (s = [] \<and> match_at r at_start s)"
| "match_at (Lit l # r) at_start s =
     (prefix l s \<and> match_at r (at_start \<and> l = []) (drop (length l) s))"
| "match_at (DigitStar # r) at_start [] = match_at r at_start []"
| "match_at (DigitStar # r) at_start (c # cs) =
     (match_at r at_start (c # cs) \<or> (is_digit c \<and> match_at (DigitStar # r) False cs))"

fun match_from :: "regexp \<Rightarrow> bool \<Rightarrow> string \<Rightarrow> bool" where
  "match_from r at_start [] = match_at r at_start []"
| "match_from r at_start (c # cs) = (match_at r at_start (c # cs) \<or> match_from r False cs)"

text \<open>\<open>pattern.MatchString(text)\<close>: the pattern matches somewhere in the text.\<close>

definition MatchString :: "regexp \<Rightarrow> string \<Rightarrow> bool" where
  "MatchString r s = match_from r True s"

definition column_names :: string where
  "column_names = ''raw_text,station_id,observation_time,latitude,longitude,temp_c,dewpoint_c,wind_dir_degrees,wind_speed_kt,wind_gust_kt,visibility_statute_mi,altim_in_hg,sea_level_pressure_mb,corrected,auto,auto_station,maintenance_indicator_on,no_signal,lightning_sensor_off,freezing_rain_sensor_off,present_weather_sensor_off,wx_string,sky_cover,cloud_base_ft_agl,sky_cover,cloud_base_ft_agl,sky_cover,cloud_base_ft_agl,sky_cover,cloud_base_ft_agl,flight_category,three_hr_pressure_tendency_mb,maxT_c,minT_c,maxT24hr_c,minT24hr_c,precip_in,pcp3hr_in,pcp6hr_in,pcp24hr_in,snow_in,vert_vis_ft,metar_type,elevation_m''"

definition metarHeaders :: "regexp list" where
  "metarHeaders =
     [[BeginText, Lit ''No errors'', EndText],
      [BeginText, Lit ''No warnings'', EndText],
      [BeginText, DigitStar, Lit '' ms'', EndText],
      [BeginText, Lit ''data source=metars'', EndText],
      [BeginText, DigitStar, Lit '' results'', EndText],
      [Lit column_names]]"

definition metarURL :: string where
  "metarURL = ''https://www.aviationweather.gov/adds/dataserver_current/current/metars.cache.csv.gz''"

subsection \<open>Errors and results\<close>

text \<open>
  One constructor for each \<open>fmt.Errorf\<close> of the source, holding what the message
  reports; \<open>External\<close> is an error value made by a library, the operating system or the
  database. A Go function that returns \<open>error\<close> can also panic.
\<close>

datatype error =
    External string
  | ErrExist
  | ErrNotExist
  | DownloadingFile error
  | ConnectingToDatabase error
  | StoringInDatabase error
  | RemovingFile error
  | OpeningFile error
  | BadHeaders error
  | StartingTransaction error
  | WritingLine string error
  | ReadingFile error
  | Committing error
  | ScanError regexp "error option"
  | Expected regexp string
  | ParsingLine error
  | BadTime string error
  | UnexpectedStatusCode int
  | GzipError error
  | ErrorCreatingFile string error
  | ErrorWritingToFile error

datatype result = Success | Failure error | Panic

subsection \<open>The line scanner\<close>

text \<open>
  A file is modelled by what a \<open>bufio.Scanner\<close> yields from it: its lines, and the error
  (if any) with which scanning stops after the last of them. The same pair is the state
  of a scanner: the lines not yet read and the error waiting at the end.
\<close>

type_synonym textfile = "string list \<times> error option"

type_synonym scanner = "string list \<times> error option"

fun Scan :: "scanner \<Rightarrow> (string \<times> scanner) option" where
  "Scan ([], ferr) = None"
| "Scan (text # rest, ferr) = Some (text, (rest, ferr))"

fun Err :: "scanner \<Rightarrow> error option" where
  "Err (ls, ferr) = ferr"

text \<open>\<open>checkLines\<close> returns its error and the scanner as it leaves it.\<close>

fun checkLines :: "regexp list \<Rightarrow> scanner \<Rightarrow> error option \<times> scanner" where
  "checkLines [] scanner = (None, scanner)"
| "checkLines (pattern # patterns) scanner =
     (case Scan scanner of
        None \<Rightarrow> (Some (ScanError pattern (Err scanner)), scanner)
      | Some (text, scanner') \<Rightarrow>
          if \<not> MatchString pattern text then (Some (Expected pattern text), scanner')
          else checkLines patterns scanner')"

subsection \<open>The table and the upsert\<close>

record 't row =
  station :: string
  time :: 't
  csv_parts :: "string list"

type_synonym 't table = "'t row list"

definition key :: "'t row \<Rightarrow> string \<times> 't" where
  "key r = (station r, time r)"

text \<open>
  \<open>INSERT INTO metars (csv_parts, station, time) VALUES (...)
  ON CONFLICT (station, time) DO UPDATE set csv_parts=EXCLUDED.csv_parts\<close>:
  the row in conflict gets the new \<open>csv_parts\<close>; with no conflict the row is added.
\<close>

fun upsert :: "'t row \<Rightarrow> 't table \<Rightarrow> 't table" where
  "upsert r [] = [r]"
| "upsert r (x # xs) =
     (if key x = key r then x\<lparr>csv_parts := csv_parts r\<rparr> # xs else x # upsert r xs)"

subsection \<open>The environment and the world\<close>

record response =
  StatusCode :: int
  Body :: string

record 't env =
  csv_read :: "string \<Rightarrow> error + string list"
  time_parse :: "string \<Rightarrow> error + 't"
  exec_err :: "'t table \<Rightarrow> 't row \<Rightarrow> error option"
  begin_err :: "error option"
  commit_err :: "'t table \<Rightarrow> error option"
  sql_open_err :: "error option"
  http_get :: "string \<Rightarrow> error + response"
  gzip_new_reader_err :: "string \<Rightarrow> error option"
  io_copy :: "string \<Rightarrow> textfile \<times> error option"
  create_err :: "string \<Rightarrow> error option"
  open_err :: "string \<Rightarrow> error option"
  remove_err :: "string \<Rightarrow> error option"

text \<open>
  \<^item> \<open>csv_read text\<close> is \<open>csv.NewReader(strings.NewReader(text)).Read()\<close>;
  \<^item> \<open>time_parse s\<close> is \<open>time.Parse(time.RFC3339, s)\<close>;
  \<^item> \<open>exec_err tx r\<close> is the error of executing the insert of \<open>r\<close> in a transaction whose
    view of the table is \<open>tx\<close>; \<open>begin_err\<close>, \<open>commit_err\<close>, \<open>sql_open_err\<close> are the
    errors of \<open>db.Begin\<close>, \<open>tx.Commit\<close> and \<open>sql.Open\<close>;
  \<^item> \<open>http_get url\<close> is \<open>http.Get(url)\<close>; \<open>gzip_new_reader_err body\<close> is the error of
    \<open>gzip.NewReader\<close> on the body; \<open>io_copy body\<close> is what \<open>io.Copy\<close> of the
    decompressed body leaves in the new file, and the error that stopped it;
  \<^item> \<open>create_err\<close>, \<open>open_err\<close>, \<open>remove_err\<close> are the failures of the file system on
    a path, other than the path existing or not.
\<close>

record 't world =
  files :: "string \<rightharpoonup> textfile"
  db :: "'t table"

record Flags =
  dbURL :: string
  filename :: string
  download :: bool

subsection \<open>Writing one line\<close>

definition writeLine :: "'t env \<Rightarrow> 't table \<Rightarrow> string \<Rightarrow> result \<times> 't table" where
  "writeLine E tx text =
     (case csv_read E text of
        Inl err \<Rightarrow> (Failure (ParsingLine err), tx)
      | Inr parts \<Rightarrow>
          if length parts \<le> 1 then (Panic, tx)
          else if length parts \<le> 2 then (Panic, tx)
          else
            (case time_parse E (parts ! 2) of
               Inl err \<Rightarrow> (Failure (BadTime (parts ! 2) err), tx)
             | Inr observationTime \<Rightarrow>
                 (let r = \<lparr>station = parts ! 1, time = observationTime, csv_parts = parts\<rparr>
                  in case exec_err E tx r of
                       Some err \<Rightarrow> (Failure err, tx)
                     | None \<Rightarrow> (Success, upsert r tx))))"

text \<open>The row that \<open>writeLine\<close> hands to the insert, when the line parses.\<close>

definition line_row :: "'t env \<Rightarrow> string \<Rightarrow> 't row option" where
  "line_row E text =
     (case csv_read E text of
        Inl err \<Rightarrow> None
      | Inr parts \<Rightarrow>
          if length parts \<le> 2 then None
          else
            (case time_parse E (parts ! 2) of
               Inl err \<Rightarrow> None
             | Inr observationTime \<Rightarrow>
                 Some \<lparr>station = parts ! 1, time = observationTime, csv_parts = parts\<rparr>))"

subsection \<open>Storing a file\<close>

text \<open>The loop \<open>for scanner.Scan() { ... writeLine(tx, text) ... }\<close>.\<close>

fun writeLines :: "'t env \<Rightarrow> 't table \<Rightarrow> string list \<Rightarrow> result \<times> 't table" where
  "writeLines E tx [] = (Success, tx)"
| "writeLines E tx (text # rest) =
     (case writeLine E tx text of
        (Success, tx') \<Rightarrow> writeLines E tx' rest
      | (Failure err, tx') \<Rightarrow> (Failure (WritingLine text err), tx')
      | (Panic, tx') \<Rightarrow> (Panic, tx'))"

definition os_Open :: "'t env \<Rightarrow> 't world \<Rightarrow> string \<Rightarrow> error + scanner" where
  "os_Open E w fname =
     (case files w fname of
        None \<Rightarrow> Inl ErrNotExist
      | Some f \<Rightarrow> (case open_err E fname of Some err \<Rightarrow> Inl err | None \<Rightarrow> Inr f))"

text \<open>
  \<open>tx.Commit()\<close> installs the transaction's table; the deferred \<open>tx.Rollback()\<close> drops
  it on every other way out of the function, a panic included.
\<close>

definition Commit :: "'t env \<Rightarrow> 't world \<Rightarrow> 't table \<Rightarrow> error option \<times> 't world" where
  "Commit E w tx =
     (case commit_err E tx of Some err \<Rightarrow> (Some err, w) | None \<Rightarrow> (None, w\<lparr>db := tx\<rparr>))"

definition Rollback :: "'t world \<Rightarrow> 't table \<Rightarrow> 't world" where
  "Rollback w tx = w"

definition fileToDB :: "'t env \<Rightarrow> 't world \<Rightarrow> string \<Rightarrow> result \<times> 't world" where
  "fileToDB E w fname =
     (case os_Open E w fname of
        Inl err \<Rightarrow> (Failure (OpeningFile err), w)
      | Inr scanner \<Rightarrow>
          (case checkLines metarHeaders scanner of
             (Some err, scanner') \<Rightarrow> (Failure (BadHeaders err), w)
           | (None, scanner') \<Rightarrow>
               (case begin_err E of
                  Some err \<Rightarrow> (Failure (StartingTransaction err), w)
                | None \<Rightarrow>
                    (case writeLines E (db w) (fst scanner') of
                       (Failure err, tx) \<Rightarrow> (Failure err, Rollback w tx)
                     | (Panic, tx) \<Rightarrow> (Panic, Rollback w tx)
                     | (Success, tx) \<Rightarrow>
                         (case Err scanner' of
                            Some err \<Rightarrow> (Failure (ReadingFile err), Rollback w tx)
                          | None \<Rightarrow>
                              (case Commit E w tx of
                                 (Some err, w') \<Rightarrow> (Failure (Committing err), Rollback w' tx)
                               | (None, w') \<Rightarrow> (Success, w')))))))"

subsection \<open>Downloading and the driver\<close>

text \<open>\<open>os.OpenFile(filename, O_RDWR|O_EXCL|O_CREATE, 0666)\<close> makes a new, empty file.\<close>

definition os_OpenFile_excl :: "'t env \<Rightarrow> 't world \<Rightarrow> string \<Rightarrow> error + 't world" where
  "os_OpenFile_excl E w fname =
     (case files w fname of
        Some f \<Rightarrow> Inl ErrExist
      | None \<Rightarrow>
          (case create_err E fname of
             Some err \<Rightarrow> Inl err
           | None \<Rightarrow> Inr (w\<lparr>files := (files w)(fname \<mapsto> ([], None))\<rparr>)))"

definition os_Remove :: "'t env \<Rightarrow> 't world \<Rightarrow> string \<Rightarrow> error option \<times> 't world" where
  "os_Remove E w fname =
     (case files w fname of
        None \<Rightarrow> (Some ErrNotExist, w)
      | Some f \<Rightarrow>
          (case remove_err E fname of
             Some err \<Rightarrow> (Some err, w)
           | None \<Rightarrow> (None, w\<lparr>files := (files w)(fname := None)\<rparr>)))"

text \<open>The source fetches \<open>metarURL\<close> whatever its parameter \<open>url\<close> is.\<close>

definition downloadFile :: "'t env \<Rightarrow> 't world \<Rightarrow> string \<Rightarrow> string \<Rightarrow> error option \<times> 't world" where
  "downloadFile E w url fname =
     (case http_get E metarURL of
        Inl err \<Rightarrow> (Some err, w)
      | Inr resp \<Rightarrow>
          if StatusCode resp \<noteq> 200 then (Some (UnexpectedStatusCode (StatusCode resp)), w)
          else
            (case gzip_new_reader_err E (Body resp) of
               Some err \<Rightarrow> (Some (GzipError err), w)
             | None \<Rightarrow>
                 (case os_OpenFile_excl E w fname of
                    Inl err \<Rightarrow> (Some (ErrorCreatingFile fname err), w)
                  | Inr w1 \<Rightarrow>
                      (case io_copy E (Body resp) of
                         (written, Some err) \<Rightarrow>
                           (Some (ErrorWritingToFile err),
                            w1\<lparr>files := (files w1)(fname \<mapsto> written)\<rparr>)
                       | (written, None) \<Rightarrow>
                           (None, w1\<lparr>files := (files w1)(fname \<mapsto> written)\<rparr>)))))"

definition run :: "'t env \<Rightarrow> Flags \<Rightarrow> 't world \<Rightarrow> result \<times> 't world" where
  "run E flags w =
     (case (if download flags then downloadFile E w metarURL (filename flags) else (None, w)) of
        (Some err, w1) \<Rightarrow> (Failure (DownloadingFile err), w1)
      | (None, w1) \<Rightarrow>
          (case sql_open_err E of
             Some err \<Rightarrow> (Failure (ConnectingToDatabase err), w1)
           | None \<Rightarrow>
               (case fileToDB E w1 (filename flags) of
                  (Failure err, w2) \<Rightarrow> (Failure (StoringInDatabase err), w2)
                | (Panic, w2) \<Rightarrow> (Panic, w2)
                | (Success, w2) \<Rightarrow>
                    if download flags then
                      (case os_Remove E w2 (filename flags) of
                         (Some err, w3) \<Rightarrow> (Failure (RemovingFile err), w3)
                       | (None, w3) \<Rightarrow> (Success, w3))
                    else (Success, w2))))"

subsection \<open>A concrete environment\<close>

text \<open>
  For evaluating the program on concrete files, an environment in which nothing fails, the
  two parsers are computed and the download brings a file with the header and one line.

  \<open>csv_read_line\<close> follows \<open>encoding/csv\<close> with its default settings on a text without
  line feed: one carriage return at the end is dropped, the text that is then empty has no
  record (\<open>io.EOF\<close>), fields are separated by commas, a field that starts with a double
  quote runs to the closing quote (a doubled quote standing for one), and a quote elsewhere
  is an error.

  \<open>time_parse_rfc3339\<close> follows \<open>time.Parse\<close> (Go 1.20 and later) on the layout
  \<open>2006-01-02T15:04:05Z07:00\<close>, element by element and with its order of checks: a
  four-digit year, a two-digit month in 1 to 12, a two-digit day, an hour of one or two
  digits below 24, a two-digit minute and second below 60, an optional fraction after a
  period or a comma, then \<open>Z\<close> or an offset \<open>+hh:mm\<close>, nothing more, and at the end the
  day checked against the month. The error holds the reason only. The value keeps the
  fields as read, the nanoseconds and the offset in seconds.
\<close>

datatype csv_state = FieldStart | InBare | InQuoted

definition cons_field :: "string \<Rightarrow> error + string list \<Rightarrow> error + string list" where
  "cons_field f r = (case r of Inl err \<Rightarrow> Inl err | Inr fs \<Rightarrow> Inr (f # fs))"

fun csv_scan :: "csv_state \<Rightarrow> string \<Rightarrow> string \<Rightarrow> error + string list" where
  "csv_scan FieldStart acc [] = Inr [[]]"
| "csv_scan FieldStart acc (c # cs) =
     (if c = CHR 0x22 then csv_scan InQuoted [] cs
      else if c = CHR '','' then cons_field [] (csv_scan FieldStart [] cs)
      else csv_scan InBare [c] cs)"
| "csv_scan InBare acc [] = Inr [acc]"
| "csv_scan InBare acc (c # cs) =
     (if c = CHR '','' then cons_field acc (csv_scan FieldStart [] cs)
      else if c = CHR 0x22 then Inl (External ''bare quote in non-quoted field'')
      else csv_scan InBare (acc @ [c]) cs)"
| "csv_scan InQuoted acc [] = Inl (External ''extraneous or missing quote in quoted field'')"
| "csv_scan InQuoted acc [c] =
     (if c = CHR 0x22 then Inr [acc]
      else Inl (External ''extraneous or missing quote in quoted field''))"
| "csv_scan InQuoted acc (c # d # ds) =
     (if c \<noteq> CHR 0x22 then csv_scan InQuoted (acc @ [c]) (d # ds)
      else if d = CHR 0x22 then csv_scan InQuoted (acc @ [d]) ds
      else if d = CHR '','' then cons_field acc (csv_scan FieldStart [] ds)
      else Inl (External ''extraneous or missing quote in quoted field''))"

definition csv_read_line :: "string \<Rightarrow> error + string list" where
  "csv_read_line text =
     (let line = (if text \<noteq> [] \<and> last text = CHR 0x0D then butlast text else text)
      in if line = [] then Inl (External ''EOF'') else csv_scan FieldStart [] line)"

definition digit_val :: "char \<Rightarrow> nat option" where
  "digit_val = map_of (zip ''0123456789'' [0, 1, 2, 3, 4, 5, 6, 7, 8, 9])"

fun parse_num :: "nat \<Rightarrow> string \<Rightarrow> nat option" where
  "parse_num acc [] = Some acc"
| "parse_num acc (c # cs) =
     (case digit_val c of None \<Rightarrow> None | Some d \<Rightarrow> parse_num (10 * acc + d) cs)"

definition days_in :: "nat \<Rightarrow> nat \<Rightarrow> nat" where
  "days_in m y =
     (if m = 2 then (if y mod 4 = 0 \<and> (y mod 100 \<noteq> 0 \<or> y mod 400 = 0) then 29 else 28)
      else if m \<in> {4, 6, 9, 11} then 30 else 31)"

type_synonym gotime = "nat \<times> nat \<times> nat \<times> nat \<times> nat \<times> nat \<times> nat \<times> int"

definition bind_err :: "error + 'a \<Rightarrow> ('a \<Rightarrow> error + 'b) \<Rightarrow> error + 'b" where
  "bind_err r f = (case r of Inl err \<Rightarrow> Inl err | Inr x \<Rightarrow> f x)"

definition errBad :: error where
  "errBad = External ''cannot parse''"

text \<open>\<open>skip(value, prefix)\<close> for a prefix of one character that is not a space.\<close>

definition skip_char :: "char \<Rightarrow> string \<Rightarrow> error + string" where
  "skip_char c v = (case v of [] \<Rightarrow> Inl errBad | x # rest \<Rightarrow> if x = c then Inr rest else Inl errBad)"

text \<open>\<open>getnum(s, fixed)\<close>: one or two digits, two when \<open>fixed\<close>.\<close>

definition getnum :: "string \<Rightarrow> bool \<Rightarrow> error + nat \<times> string" where
  "getnum s fixed =
     (case s of
        [] \<Rightarrow> Inl errBad
      | c # cs \<Rightarrow>
          (case digit_val c of
             None \<Rightarrow> Inl errBad
           | Some d1 \<Rightarrow>
               (case cs of
                  [] \<Rightarrow> if fixed then Inl errBad else Inr (d1, cs)
                | c2 # cs2 \<Rightarrow>
                    (case digit_val c2 of
                       None \<Rightarrow> if fixed then Inl errBad else Inr (d1, cs)
                     | Some d2 \<Rightarrow> Inr (10 * d1 + d2, cs2)))))"

definition parse_long_year :: "string \<Rightarrow> error + nat \<times> string" where
  "parse_long_year v =
     (if length v < 4 \<or> \<not> is_digit (v ! 0) then Inl errBad
      else (case parse_num 0 (take 4 v) of None \<Rightarrow> Inl errBad | Some y \<Rightarrow> Inr (y, drop 4 v)))"

text \<open>
  A fraction in the text where the layout has none: a period or a comma and digits, of
  which \<open>parseNanoseconds\<close> keeps nine.
\<close>

definition parse_fraction :: "string \<Rightarrow> nat \<times> string" where
  "parse_fraction v =
     (case v of
        c # d # rest \<Rightarrow>
          if (c = CHR ''.'' \<or> c = CHR '','') \<and> is_digit d then
            (let ds = take 9 (takeWhile is_digit (d # rest))
             in (case parse_num 0 ds of
                   None \<Rightarrow> (0, dropWhile is_digit (d # rest))
                 | Some n \<Rightarrow> (n * 10 ^ (9 - length ds), dropWhile is_digit (d # rest))))
          else (0, v)
      | _ \<Rightarrow> (0, v))"

text \<open>
  The element \<open>Z07:00\<close>. The numbers of an offset that do not parse count as 0 in the range
  checks, the check of the minutes has the last word, and a range error goes before any
  other.
\<close>

definition parse_zone :: "string \<Rightarrow> error + int \<times> string" where
  "parse_zone v =
     (if v \<noteq> [] \<and> v ! 0 = CHR ''Z'' then Inr (0, drop 1 v)
      else if length v < 6 then Inl errBad
      else if v ! 3 \<noteq> CHR '':'' then Inl errBad
      else
        (let hr_r = getnum (take 2 (drop 1 v)) True;
             mm_r = (case hr_r of Inl err \<Rightarrow> Inl err | Inr x \<Rightarrow> getnum (take 2 (drop 4 v)) True);
             hr = (case hr_r of Inl err \<Rightarrow> 0 | Inr x \<Rightarrow> fst x);
             mm = (case mm_r of Inl err \<Rightarrow> 0 | Inr x \<Rightarrow> fst x)
         in if 60 < mm then Inl (External ''time zone offset minute out of range'')
            else if 24 < hr then Inl (External ''time zone offset hour out of range'')
            else
              (case mm_r of
                 Inl err \<Rightarrow> Inl errBad
               | Inr x \<Rightarrow>
                   if v ! 0 = CHR ''+'' then Inr (int ((hr * 60 + mm) * 60), drop 6 v)
                   else if v ! 0 = CHR ''-'' then Inr (- int ((hr * 60 + mm) * 60), drop 6 v)
                   else Inl errBad)))"

definition time_parse_rfc3339 :: "string \<Rightarrow> error + gotime" where
  "time_parse_rfc3339 v0 =
     bind_err (parse_long_year v0) (\<lambda>(year, v).
     bind_err (skip_char CHR ''-'' v) (\<lambda>v.
     bind_err (getnum v True) (\<lambda>(month, v).
       if month = 0 \<or> 12 < month then Inl (External ''month out of range'')
       else
     bind_err (skip_char CHR ''-'' v) (\<lambda>v.
     bind_err (getnum v True) (\<lambda>(day, v).
     bind_err (skip_char CHR ''T'' v) (\<lambda>v.
     bind_err (getnum v False) (\<lambda>(hour, v).
       if 24 \<le> hour then Inl (External ''hour out of range'')
       else
     bind_err (skip_char CHR '':'' v) (\<lambda>v.
     bind_err (getnum v True) (\<lambda>(minute, v).
       if 60 \<le> minute then Inl (External ''minute out of range'')
       else
     bind_err (skip_char CHR '':'' v) (\<lambda>v.
     bind_err (getnum v True) (\<lambda>(sec, v).
       if 60 \<le> sec then Inl (External ''second out of range'')
       else
         (case parse_fraction v of
            (nsec, v) \<Rightarrow>
     bind_err (parse_zone v) (\<lambda>(offset, v).
       if v \<noteq> [] then Inl (External ''extra text'')
       else if day < 1 \<or> days_in month year < day then Inl (External ''day out of range'')
       else Inr (year, month, day, hour, minute, sec, nsec, offset))))))))))))))"

text \<open>
  What RFC 3339 (section 5.6) calls a date-time: \<open>YYYY-MM-DD\<close>, \<open>T\<close>, \<open>hh:mm:ss\<close> with
  two digits each, an optional fraction after a period, and \<open>Z\<close> or \<open>+hh:mm\<close>, the fields
  in their ranges (a second may be 60); \<open>T\<close> and \<open>Z\<close> may be in lower case.
\<close>

definition rfc3339_zone :: "string \<Rightarrow> bool" where
  "rfc3339_zone z =
     (z = ''Z'' \<or> z = ''z''
      \<or> (length z = 6 \<and> (z ! 0 = CHR ''+'' \<or> z ! 0 = CHR ''-'') \<and> z ! 3 = CHR '':''
          \<and> (case (parse_num 0 (take 2 (drop 1 z)), parse_num 0 (drop 4 z)) of
                (Some h, Some m) \<Rightarrow> h \<le> 23 \<and> m \<le> 59
              | _ \<Rightarrow> False)))"

definition rfc3339_after_fraction :: "string \<Rightarrow> string" where
  "rfc3339_after_fraction v =
     (case v of
        c # d # rest \<Rightarrow> if c = CHR ''.'' \<and> is_digit d then dropWhile is_digit rest else v
      | _ \<Rightarrow> v)"

definition rfc3339_valid :: "string \<Rightarrow> bool" where
  "rfc3339_valid s =
     (19 < length s \<and> s ! 4 = CHR ''-'' \<and> s ! 7 = CHR ''-''
      \<and> (s ! 10 = CHR ''T'' \<or> s ! 10 = CHR ''t'') \<and> s ! 13 = CHR '':'' \<and> s ! 16 = CHR '':''
      \<and> (case (parse_num 0 (take 4 s), parse_num 0 (take 2 (drop 5 s)),
                parse_num 0 (take 2 (drop 8 s)), parse_num 0 (take 2 (drop 11 s)),
                parse_num 0 (take 2 (drop 14 s)), parse_num 0 (take 2 (drop 17 s))) of
            (Some y, Some m, Some d, Some h, Some mi, Some sec) \<Rightarrow>
              1 \<le> m \<and> m \<le> 12 \<and> 1 \<le> d \<and> d \<le> days_in m y \<and> h \<le> 23 \<and> mi \<le> 59 \<and> sec \<le> 60
          | _ \<Rightarrow> False)
      \<and> rfc3339_zone (rfc3339_after_fraction (drop 19 s)))"

definition good_header :: "string list" where
  "good_header =
     [''No errors'', ''No warnings'', ''7 ms'', ''data source=metars'', ''2 results'',
      column_names]"

definition std_env :: "gotime env" where
  "std_env =
     \<lparr>csv_read = csv_read_line,
      time_parse = time_parse_rfc3339,
      exec_err = (\<lambda>tx r. None),
      begin_err = None,
      commit_err = (\<lambda>tx. None),
      sql_open_err = None,
      http_get = (\<lambda>url. Inr \<lparr>StatusCode = 200, Body = ''gz''\<rparr>),
      gzip_new_reader_err = (\<lambda>body. None),
      io_copy = (\<lambda>body. ((good_header @ [''r1,KSEA,2024-01-01T00:00:00Z''], None), None)),
      create_err = (\<lambda>fname. None),
      open_err = (\<lambda>fname. None),
      remove_err = (\<lambda>fname. None)\<rparr>"

section \<open>Properties\<close>

subsection \<open>Matching and the header check\<close>

lemma match_at_Lit_End: "match_at [Lit l, EndText] b s = (s = l)"
  by (auto simp: prefix_def)

lemma match_at_Digits_Lit_End:
  "match_at [DigitStar, Lit l, EndText] b s = (\<exists>ds. (\<forall>c\<in>set ds. is_digit c) \<and> s = ds @ l)"
proof (induction s arbitrary: b)
  case Nil
  show ?case by (simp add: match_at_Lit_End) 
next
  case (Cons c cs)
  show ?case
  proof
    assume "match_at [DigitStar, Lit l, EndText] b (c # cs)"
    then consider "c # cs = l" | ds where "is_digit c" "\<forall>c\<in>set ds. is_digit c" "cs = ds @ l"
      using Cons.IH[of False] by (auto simp: match_at_Lit_End simp del: match_at.simps(4))
    then show "\<exists>ds. (\<forall>c\<in>set ds. is_digit c) \<and> c # cs = ds @ l"
    proof cases
      case 1
      then show ?thesis by (intro exI[of _ "[]"]) simp
    next
      case 2
      then show ?thesis by (intro exI[of _ "c # ds"]) simp
    qed
  next
    assume "\<exists>ds. (\<forall>c\<in>set ds. is_digit c) \<and> c # cs = ds @ l"
    then obtain ds where ds: "\<forall>c\<in>set ds. is_digit c" "c # cs = ds @ l" by blast
    show "match_at [DigitStar, Lit l, EndText] b (c # cs)"
    proof (cases ds)
      case Nil
      with ds have "match_at [Lit l, EndText] b (c # cs)"
        by (simp add: match_at_Lit_End del: match_at.simps(4))
      then show ?thesis by (simp del: match_at.simps(4))
    next
      case (Cons d ds')
      with ds have "is_digit c" "cs = ds' @ l" "\<forall>c\<in>set ds'. is_digit c" by auto
      then show ?thesis using Cons.IH[of False] by (auto simp del: match_at.simps(4))
    qed
  qed
qed

lemma match_from_Begin_False: "match_from (BeginText # r) False s = False"
  by (induction s) auto

lemma MatchString_Begin: "MatchString (BeginText # r) s = match_at r True s"
  by (cases s) (auto simp: MatchString_def match_from_Begin_False)

lemma match_from_Lit: "match_from [Lit l] b s = sublist l s"
  by (induction s arbitrary: b) (auto simp: sublist_Cons_right)

lemma MatchString_Lit: "MatchString [Lit l] s = sublist l s"
  by (simp add: MatchString_def match_from_Lit)


lemma checkLines_Cons:
  "checkLines (p # ps) (ls, fe) =
     (case ls of
        [] \<Rightarrow> (Some (ScanError p fe), ([], fe))
      | t # r \<Rightarrow> if MatchString p t then checkLines ps (r, fe) else (Some (Expected p t), (r, fe)))"
  by (cases ls) auto

lemma checkLines_pass_iff:
  "fst (checkLines ps (ls, fe)) = None \<longleftrightarrow>
     length ps \<le> length ls \<and> list_all2 MatchString ps (take (length ps) ls)"
proof (induction ps arbitrary: ls)
  case Nil
  show ?case by simp
next
  case (Cons p ps)
  show ?case
    by (cases ls) (simp_all add: checkLines_Cons Cons.IH del: checkLines.simps(2))
qed

lemma checkLines_pass_rest:
  "fst (checkLines ps (ls, fe)) = None \<Longrightarrow> snd (checkLines ps (ls, fe)) = (drop (length ps) ls, fe)"
proof (induction ps arbitrary: ls)
  case Nil
  show ?case by simp
next
  case (Cons p ps)
  then show ?case
    by (cases ls) (auto simp add: checkLines_Cons simp del: checkLines.simps(2) split: if_splits)
qed

text \<open>
  What the header check accepts: the two marker lines, digits (none is enough) before
  \<open>ms\<close>, the data source line, digits before \<open>results\<close>, and as sixth line any line
  that contains the column names.
\<close>

lemma checkLines_metarHeaders_iff:
  "fst (checkLines metarHeaders (ls, fe)) = None \<longleftrightarrow>
     (\<exists>d3 d5 l6 rest. (\<forall>c\<in>set d3. is_digit c) \<and> (\<forall>c\<in>set d5. is_digit c) \<and> sublist column_names l6 \<and>
        ls = ''No errors'' # ''No warnings'' # (d3 @ '' ms'') # ''data source=metars'' #
             (d5 @ '' results'') # l6 # rest)"
  unfolding checkLines_pass_iff
  by (auto simp: metarHeaders_def Suc_le_length_iff MatchString_Begin MatchString_Lit
        match_at_Lit_End match_at_Digits_Lit_End simp del: match_at.simps)


lemma checkLines_ok:
  "length ps \<le> length ls \<Longrightarrow> list_all2 MatchString ps (take (length ps) ls) \<Longrightarrow>
   checkLines ps (ls, fe) = (None, (drop (length ps) ls, fe))"
  using checkLines_pass_iff[of ps ls fe] checkLines_pass_rest[of ps ls fe]
  by (simp add: prod_eq_iff)

lemma checkLines_mismatch:
  "n < length ps \<Longrightarrow> n < length ls \<Longrightarrow> list_all2 MatchString (take n ps) (take n ls) \<Longrightarrow>
   \<not> MatchString (ps ! n) (ls ! n) \<Longrightarrow>
   checkLines ps (ls, fe) = (Some (Expected (ps ! n) (ls ! n)), (drop (Suc n) ls, fe))"
proof (induction ps arbitrary: ls n)
  case Nil
  then show ?case by simp
next
  case (Cons p ps)
  then obtain t r where ls: "ls = t # r" by (cases ls) auto
  show ?case
  proof (cases n)
    case 0
    with Cons.prems ls show ?thesis by (simp add: checkLines_Cons del: checkLines.simps(2))
  next
    case (Suc m)
    with Cons.prems ls have "MatchString p t" "m < length ps" "m < length r"
      "list_all2 MatchString (take m ps) (take m r)" "\<not> MatchString (ps ! m) (r ! m)"
      by auto
    with Cons.IH[of m r] ls Suc show ?thesis by (simp add: checkLines_Cons del: checkLines.simps(2))
  qed
qed

lemma checkLines_eof:
  "length ls < length ps \<Longrightarrow> list_all2 MatchString (take (length ls) ps) ls \<Longrightarrow>
   checkLines ps (ls, fe) = (Some (ScanError (ps ! length ls) fe), ([], fe))"
proof (induction ps arbitrary: ls)
  case Nil
  then show ?case by simp
next
  case (Cons p ps)
  show ?case
  proof (cases ls)
    case Nil
    then show ?thesis by (simp add: checkLines_Cons del: checkLines.simps(2))
  next
    case (Cons t r)
    with Cons.prems Cons.IH[of r] show ?thesis
      by (simp add: checkLines_Cons del: checkLines.simps(2))
  qed
qed

lemma checkLines_five:
  "checkLines metarHeaders
     (''No errors'' # ''No warnings'' # ''7 ms'' # ''data source=metars'' # ''2 results'' # l6 # rest, fe) =
   (if sublist column_names l6 then (None, (rest, fe))
    else (Some (Expected [Lit column_names] l6), (rest, fe)))"
  by (simp add: metarHeaders_def checkLines_Cons MatchString_Begin MatchString_Lit is_digit_def
        del: checkLines.simps(2))

lemma checkLines_good_header:
  "checkLines metarHeaders (good_header @ rest, fe) = (None, (rest, fe))"
  by (simp add: good_header_def checkLines_five del: checkLines.simps(2))

text \<open>
  C5. For every list of patterns and every scanner, \<open>checkLines\<close> reads one line for each
  pattern, in order. When every pattern matches its line it returns no error and leaves the
  scanner after the last line read. When line \<open>n\<close> is the first that does not match, the
  error holds the pattern and the line. When the lines run out first, the error is a scan
  error (another constructor) holding the pattern looked for and the scanner's error.
\<close>

theorem checkLines_consumes_one_line_per_pattern:
  "(length ps \<le> length ls \<and> list_all2 MatchString ps (take (length ps) ls) \<longrightarrow>
      checkLines ps (ls, fe) = (None, (drop (length ps) ls, fe)))
   \<and> (n < length ps \<and> n < length ls \<and> list_all2 MatchString (take n ps) (take n ls)
        \<and> \<not> MatchString (ps ! n) (ls ! n) \<longrightarrow>
      checkLines ps (ls, fe) = (Some (Expected (ps ! n) (ls ! n)), (drop (Suc n) ls, fe)))
   \<and> (length ls < length ps \<and> list_all2 MatchString (take (length ls) ps) ls \<longrightarrow>
      checkLines ps (ls, fe) = (Some (ScanError (ps ! length ls) fe), ([], fe)))"
  using checkLines_ok[of ps ls fe] checkLines_mismatch[of n ps ls fe] checkLines_eof[of ls ps fe]
  by blast

theorem checkLines_consumes_one_line_per_pattern_witness:
  "checkLines [[BeginText, Lit ''a'', EndText], [Lit ''b'']] ([''a'', ''xby'', ''c''], None)
     = (None, ([''c''], None))
   \<and> checkLines [[BeginText, Lit ''a'', EndText], [Lit ''b'']] ([''a'', ''xy'', ''c''], None)
     = (Some (Expected [Lit ''b''] ''xy''), ([''c''], None))
   \<and> checkLines [[BeginText, Lit ''a'', EndText], [Lit ''b'']] ([''a''], Some (External ''read''))
     = (Some (ScanError [Lit ''b''] (Some (External ''read''))), ([], Some (External ''read'')))"
proof -
  let ?ps = "[[BeginText, Lit ''a'', EndText], [Lit ''b'']]"
  have m: "MatchString [BeginText, Lit ''a'', EndText] ''a''" "MatchString [Lit ''b''] ''xby''"
    "\<not> MatchString [Lit ''b''] ''xy''"
    by (simp_all add: MatchString_def)
  have 1: "checkLines ?ps ([''a'', ''xby'', ''c''], None) = (None, ([''c''], None))"
    using checkLines_consumes_one_line_per_pattern[of ?ps "[''a'', ''xby'', ''c'']" None 0] m
    by simp
  have 2: "checkLines ?ps ([''a'', ''xy'', ''c''], None)
             = (Some (Expected [Lit ''b''] ''xy''), ([''c''], None))"
    using checkLines_consumes_one_line_per_pattern[of ?ps "[''a'', ''xy'', ''c'']" None 1] m
    by simp
  have 3: "checkLines ?ps ([''a''], Some (External ''read''))
     = (Some (ScanError [Lit ''b''] (Some (External ''read''))), ([], Some (External ''read'')))"
    using checkLines_consumes_one_line_per_pattern[of ?ps "[''a'']" "Some (External ''read'')" 0] m
    by simp
  from 1 2 3 show ?thesis by blast
qed

subsection \<open>The upsert\<close>

lemma key_update [simp]: "key (x\<lparr>csv_parts := p\<rparr>) = key x"
  by (simp add: key_def)

lemma row_update_eq: "key x = key r \<Longrightarrow> x\<lparr>csv_parts := csv_parts r\<rparr> = (r::'t row)"
  by (simp add: key_def)

lemma keys_upsert: "key ` set (upsert r t) = insert (key r) (key ` set t)"
  by (induction t) auto

lemma keys_fold_upsert: "key ` set (fold upsert rs t) = key ` set t \<union> key ` set rs"
  by (induction rs arbitrary: t) (auto simp: keys_upsert)

lemma upsert_same_key: "key a = key b \<Longrightarrow> upsert a (upsert b t) = upsert a t"
  by (induction t) (auto simp: row_update_eq)

lemma upsert_commute:
  "key a \<noteq> key b \<Longrightarrow> key a \<in> key ` set t \<Longrightarrow> upsert a (upsert b t) = upsert b (upsert a t)"
  by (induction t) auto

lemma upsert_fold_absorb:
  "key ` set rs \<subseteq> key ` set u \<Longrightarrow>
   upsert r (fold upsert rs (upsert r u)) = upsert r (fold upsert rs u)"
proof (induction rs arbitrary: u)
  case Nil
  show ?case by (simp add: upsert_same_key)
next
  case (Cons a rs)
  from Cons.prems have a: "key a \<in> key ` set u" and rs: "key ` set rs \<subseteq> key ` set (upsert a u)"
    by (auto simp: keys_upsert)
  show ?case
  proof (cases "key a = key r")
    case True
    then show ?thesis by (simp add: upsert_same_key)
  next
    case False
    then have "upsert a (upsert r u) = upsert r (upsert a u)"
      using a by (rule upsert_commute)
    then show ?thesis using Cons.IH[OF rs] by simp
  qed
qed

lemma fold_upsert_idem: "fold upsert rs (fold upsert rs t) = fold upsert rs t"
proof (induction rs arbitrary: t rule: rev_induct)
  case Nil
  show ?case by simp
next
  case (snoc r rs)
  let ?u = "fold upsert rs t"
  have "key ` set rs \<subseteq> key ` set ?u" by (simp add: keys_fold_upsert)
  then have "upsert r (fold upsert rs (upsert r ?u)) = upsert r (fold upsert rs ?u)"
    by (rule upsert_fold_absorb)
  then show ?case by (simp add: snoc.IH)
qed

lemma distinct_upsert: "distinct (map key t) \<Longrightarrow> distinct (map key (upsert r t))"
proof (induction t)
  case Nil
  show ?case by simp
next
  case (Cons x xs)
  then show ?case using keys_upsert[of r xs] by auto
qed

lemma filter_upsert_same:
  "distinct (map key t) \<Longrightarrow> filter (\<lambda>x. key x = key r) (upsert r t) = [r]"
proof (induction t)
  case Nil
  show ?case by simp
next
  case (Cons x xs)
  show ?case
  proof (cases "key x = key r")
    case True
    with Cons.prems have "\<forall>y\<in>set xs. key y \<noteq> key r" by (auto simp: image_iff)
    then have "filter (\<lambda>x. key x = key r) xs = []" by (simp add: filter_empty_conv)
    with True show ?thesis by (simp add: row_update_eq)
  next
    case False
    with Cons show ?thesis by simp
  qed
qed

lemma filter_upsert_other:
  "key r \<noteq> k \<Longrightarrow> filter (\<lambda>x. key x = k) (upsert r t) = filter (\<lambda>x. key x = k) t"
  by (induction t) auto

lemma distinct_fold_upsert: "distinct (map key t) \<Longrightarrow> distinct (map key (fold upsert rs t))"
  by (induction rs arbitrary: t) (auto simp: distinct_upsert)

lemma filter_fold_upsert_other:
  "\<forall>r\<in>set rs. key r \<noteq> k \<Longrightarrow>
   filter (\<lambda>x. key x = k) (fold upsert rs t) = filter (\<lambda>x. key x = k) t"
  by (induction rs arbitrary: t) (auto simp: filter_upsert_other)

lemma filter_fold_upsert_last:
  "distinct (map key t) \<Longrightarrow> \<forall>r'\<in>set post. key r' \<noteq> key r \<Longrightarrow>
   filter (\<lambda>x. key x = key r) (fold upsert (pre @ r # post) t) = [r]"
  by (simp add: filter_fold_upsert_other filter_upsert_same distinct_fold_upsert)


subsection \<open>Lines, the loop and the transaction\<close>

lemma writeLine_Success_iff:
  "writeLine E tx line = (Success, tx') \<longleftrightarrow>
     (\<exists>r. line_row E line = Some r \<and> exec_err E tx r = None \<and> tx' = upsert r tx)"
  by (auto simp: writeLine_def line_row_def Let_def split: sum.splits option.splits)

lemma writeLines_Cons_not_Success:
  "fst (writeLine E tx line) \<noteq> Success \<Longrightarrow> fst (writeLines E tx (line # rest)) \<noteq> Success"
  by (cases "writeLine E tx line") (auto split: result.splits)

lemma writeLines_append:
  "writeLines E tx pre = (Success, tx1) \<Longrightarrow> writeLines E tx (pre @ rest) = writeLines E tx1 rest"
proof (induction pre arbitrary: tx)
  case Nil
  then show ?case by simp
next
  case (Cons line pre)
  obtain res tx2 where w: "writeLine E tx line = (res, tx2)" by (cases "writeLine E tx line")
  with Cons.prems have "res = Success" by (auto split: result.splits)
  with w Cons show ?case by simp
qed

lemma writeLines_prefix_fails:
  "fst (writeLines E tx pre) \<noteq> Success \<Longrightarrow> fst (writeLines E tx (pre @ rest)) \<noteq> Success"
proof (induction pre arbitrary: tx)
  case Nil
  then show ?case by simp
next
  case (Cons line pre)
  obtain res tx2 where w: "writeLine E tx line = (res, tx2)" by (cases "writeLine E tx line")
  with Cons show ?case by (cases res) auto
qed

lemma writeLines_bad_line:
  "line \<in> set ls \<Longrightarrow> \<forall>tx. fst (writeLine E tx line) \<noteq> Success \<Longrightarrow>
   fst (writeLines E tx ls) \<noteq> Success"
proof -
  assume "line \<in> set ls" and bad: "\<forall>tx. fst (writeLine E tx line) \<noteq> Success"
  then obtain pre post where ls: "ls = pre @ line # post" by (auto simp: in_set_conv_decomp)
  show ?thesis
  proof (cases "fst (writeLines E tx pre) = Success")
    case True
    then obtain tx1 where "writeLines E tx pre = (Success, tx1)"
      by (cases "writeLines E tx pre") auto
    then have "writeLines E tx ls = writeLines E tx1 (line # post)"
      unfolding ls by (rule writeLines_append)
    with bad writeLines_Cons_not_Success[of E tx1 line post] show ?thesis by simp
  next
    case False
    then show ?thesis unfolding ls by (rule writeLines_prefix_fails)
  qed
qed

lemma writeLines_Success_rows:
  "writeLines E tx ls = (Success, tx') \<Longrightarrow>
   \<exists>rs. map (line_row E) ls = map Some rs \<and> tx' = fold upsert rs tx"
proof (induction ls arbitrary: tx)
  case Nil
  then show ?case by simp
next
  case (Cons line ls)
  obtain res tx1 where w: "writeLine E tx line = (res, tx1)" by (cases "writeLine E tx line")
  with Cons.prems have res: "res = Success" by (auto split: result.splits)
  with w obtain r where r: "line_row E line = Some r" "tx1 = upsert r tx"
    by (auto simp: writeLine_Success_iff)
  from Cons.prems w res have "writeLines E tx1 ls = (Success, tx')" by simp
  from Cons.IH[OF this] obtain rs where "map (line_row E) ls = map Some rs" "tx' = fold upsert rs tx1"
    by blast
  with r have "map (line_row E) (line # ls) = map Some (r # rs) \<and> tx' = fold upsert (r # rs) tx"
    by simp
  then show ?case by blast
qed

lemma writeLines_rows_Success:
  "map (line_row E) ls = map Some rs \<Longrightarrow> \<forall>tx r. exec_err E tx r = None \<Longrightarrow>
   writeLines E tx ls = (Success, fold upsert rs tx)"
proof (induction ls arbitrary: tx rs)
  case Nil
  then show ?case by simp
next
  case (Cons line ls)
  then obtain r rs' where rs: "rs = r # rs'" "line_row E line = Some r"
    "map (line_row E) ls = map Some rs'" by (cases rs) auto
  with Cons.prems have "writeLine E tx line = (Success, upsert r tx)"
    by (simp add: writeLine_Success_iff)
  with Cons.IH[OF rs(3) Cons.prems(2)] rs show ?case by simp
qed

lemma line_row_Some_iff:
  "line_row E line = Some r \<longleftrightarrow>
     (\<exists>parts t. csv_read E line = Inr parts \<and> 2 < length parts \<and> time_parse E (parts ! 2) = Inr t
        \<and> r = \<lparr>station = parts ! 1, time = t, csv_parts = parts\<rparr>)"
  by (auto simp: line_row_def split: sum.splits)

lemma line_row_cong:
  "csv_read E' = csv_read E \<Longrightarrow> time_parse E' = time_parse E \<Longrightarrow> line_row E' = line_row E"
  by (rule ext) (auto simp: line_row_def split: sum.splits)

lemma length_upsert: "key r \<in> key ` set t \<Longrightarrow> length (upsert r t) = length t"
  by (induction t) auto

lemma filter_upsert_rest:
  "filter (\<lambda>x. key x \<noteq> key r) (upsert r t) = filter (\<lambda>x. key x \<noteq> key r) t"
  by (induction t) auto

lemma one_row_per_key:
  "distinct (map key t) \<Longrightarrow> k \<in> key ` set t \<Longrightarrow> length (filter (\<lambda>x. key x = k) t) = 1"
proof (induction t)
  case Nil
  then show ?case by simp
next
  case (Cons x xs)
  show ?case
  proof (cases "key x = k")
    case True
    with Cons.prems have "\<forall>y\<in>set xs. key y \<noteq> k" by (auto simp: image_iff)
    then have "filter (\<lambda>x. key x = k) xs = []" by (simp add: filter_empty_conv)
    with True show ?thesis by simp
  next
    case False
    with Cons show ?thesis by auto
  qed
qed

lemma fileToDB_unchanged:
  "fst (fileToDB E w fname) \<noteq> Success \<Longrightarrow> snd (fileToDB E w fname) = w"
  by (auto simp: fileToDB_def Rollback_def Commit_def
      split: sum.splits prod.splits option.splits result.splits)

lemma fileToDB_eq:
  assumes "files w fname = Some (ls, fe)" and "open_err E fname = None"
    and "fst (checkLines metarHeaders (ls, fe)) = None" and "begin_err E = None"
  shows "fileToDB E w fname =
     (case writeLines E (db w) (drop (length metarHeaders) ls) of
        (Failure err, tx) \<Rightarrow> (Failure err, w)
      | (Panic, tx) \<Rightarrow> (Panic, w)
      | (Success, tx) \<Rightarrow>
          (case fe of
             Some err \<Rightarrow> (Failure (ReadingFile err), w)
           | None \<Rightarrow>
               (case commit_err E tx of
                  Some err \<Rightarrow> (Failure (Committing err), w)
                | None \<Rightarrow> (Success, w\<lparr>db := tx\<rparr>))))"
proof -
  from assms(3) have "checkLines metarHeaders (ls, fe) = (None, (drop (length metarHeaders) ls, fe))"
    using checkLines_pass_rest[of metarHeaders ls fe] by (simp add: prod_eq_iff)
  with assms(1,2,4) show ?thesis
    by (simp add: fileToDB_def os_Open_def Rollback_def Commit_def
        split: prod.splits option.splits result.splits)
qed

lemma fileToDB_SuccessD:
  assumes "fst (fileToDB E w fname) = Success"
  shows "\<exists>ls tx. files w fname = Some (ls, None) \<and> open_err E fname = None
           \<and> fst (checkLines metarHeaders (ls, None)) = None \<and> begin_err E = None
           \<and> writeLines E (db w) (drop (length metarHeaders) ls) = (Success, tx)
           \<and> commit_err E tx = None \<and> fileToDB E w fname = (Success, w\<lparr>db := tx\<rparr>)"
proof -
  from assms obtain ls fe where f: "files w fname = Some (ls, fe)" and o: "open_err E fname = None"
    by (auto simp: fileToDB_def os_Open_def split: option.splits)
  from assms f o have c: "fst (checkLines metarHeaders (ls, fe)) = None"
    by (auto simp: fileToDB_def os_Open_def split: prod.splits option.splits)
  from assms f o c have b: "begin_err E = None"
    by (auto simp: fileToDB_def os_Open_def split: prod.splits option.splits)
  note eq = fileToDB_eq[OF f o c b]
  obtain res tx where wl: "writeLines E (db w) (drop (length metarHeaders) ls) = (res, tx)"
    by (cases "writeLines E (db w) (drop (length metarHeaders) ls)")
  from assms eq wl have res: "res = Success" by (cases res) auto
  from assms eq wl res have fe: "fe = None" by (cases fe) auto
  from assms eq wl res fe have ce: "commit_err E tx = None" by (cases "commit_err E tx") auto
  from eq wl res fe ce have "fileToDB E w fname = (Success, w\<lparr>db := tx\<rparr>)" by simp
  with f o c b wl res fe ce show ?thesis by blast
qed

lemma fileToDB_bad_data:
  assumes f: "files w fname = Some (ls, fe)"
    and bad: "fe \<noteq> None \<or> (\<exists>line\<in>set (drop (length metarHeaders) ls). \<forall>tx. fst (writeLine E tx line) \<noteq> Success)"
  shows "fst (fileToDB E w fname) \<noteq> Success"
proof
  assume "fst (fileToDB E w fname) = Success"
  from fileToDB_SuccessD[OF this] f obtain tx where fe: "fe = None"
    and wl: "writeLines E (db w) (drop (length metarHeaders) ls) = (Success, tx)" by auto
  from bad fe obtain line where "line \<in> set (drop (length metarHeaders) ls)"
    "\<forall>tx. fst (writeLine E tx line) \<noteq> Success" by blast
  from writeLines_bad_line[OF this, of "db w"] wl show False by simp
qed

lemma fileToDB_failing_line:
  assumes f: "files w fname = Some (ls, fe)"
    and d: "drop (length metarHeaders) ls = pre @ line # post"
    and pre: "writeLines E (db w) pre = (Success, tx)"
    and bad: "fst (writeLine E tx line) \<noteq> Success"
  shows "fst (fileToDB E w fname) \<noteq> Success"
proof
  assume "fst (fileToDB E w fname) = Success"
  from fileToDB_SuccessD[OF this] f obtain tx' where
    wl: "writeLines E (db w) (drop (length metarHeaders) ls) = (Success, tx')" by auto
  have "writeLines E (db w) (pre @ line # post) = writeLines E tx (line # post)"
    using pre by (rule writeLines_append)
  with wl d have "fst (writeLines E tx (line # post)) = Success" by simp
  with writeLines_Cons_not_Success[OF bad, of post] show False by simp
qed

subsection \<open>Evaluation in the concrete environment\<close>

lemma bind_err_weak_cong: "r = r' \<Longrightarrow> bind_err r f = bind_err r' f"
  by simp

lemmas time_parse_defs =
  time_parse_rfc3339_def bind_err_def parse_long_year_def skip_char_def getnum_def
  parse_fraction_def parse_zone_def digit_val_def is_digit_def days_in_def errBad_def

lemma std_env_fields:
  "csv_read std_env = csv_read_line" "time_parse std_env = time_parse_rfc3339"
  "exec_err std_env tx r = None" "begin_err std_env = None" "commit_err std_env tx = None"
  "sql_open_err std_env = None" "http_get std_env url = Inr \<lparr>StatusCode = 200, Body = ''gz''\<rparr>"
  "gzip_new_reader_err std_env body = None"
  "io_copy std_env body = ((good_header @ [''r1,KSEA,2024-01-01T00:00:00Z''], None), None)"
  "create_err std_env fname = None" "open_err std_env fname = None"
  "remove_err std_env fname = None"
  by (simp_all add: std_env_def)

lemma std_rows:
  "line_row std_env ''r1,KSEA,2024-01-01T00:00:00Z'' =
     Some \<lparr>station = ''KSEA'', time = (2024, 1, 1, 0, 0, 0, 0, 0),
           csv_parts = [''r1'', ''KSEA'', ''2024-01-01T00:00:00Z'']\<rparr>"
  "line_row std_env ''r2,KSEA,2024-01-01T00:00:00Z'' =
     Some \<lparr>station = ''KSEA'', time = (2024, 1, 1, 0, 0, 0, 0, 0),
           csv_parts = [''r2'', ''KSEA'', ''2024-01-01T00:00:00Z'']\<rparr>"
  "line_row std_env ''r3,KPDX,2024-01-01T00:05:00Z'' =
     Some \<lparr>station = ''KPDX'', time = (2024, 1, 1, 0, 5, 0, 0, 0),
           csv_parts = [''r3'', ''KPDX'', ''2024-01-01T00:05:00Z'']\<rparr>"
  "line_row std_env ''r4,KSEA,2024-13-40'' = None"
  "line_row std_env ''r5,KSEA'' = None"
  "line_row std_env ''r6,,2024-01-01T00:00:00Z'' =
     Some \<lparr>station = '''', time = (2024, 1, 1, 0, 0, 0, 0, 0),
           csv_parts = [''r6'', '''', ''2024-01-01T00:00:00Z'']\<rparr>"
  by (simp_all add: line_row_def std_env_fields csv_read_line_def cons_field_def time_parse_defs
        cong: bind_err_weak_cong)

lemma std_writeLine:
  "writeLine std_env tx line =
     (case csv_read_line line of
        Inl err \<Rightarrow> (Failure (ParsingLine err), tx)
      | Inr parts \<Rightarrow>
          if length parts \<le> 2 then (Panic, tx)
          else
            (case time_parse_rfc3339 (parts ! 2) of
               Inl err \<Rightarrow> (Failure (BadTime (parts ! 2) err), tx)
             | Inr t \<Rightarrow> (Success, upsert \<lparr>station = parts ! 1, time = t, csv_parts = parts\<rparr> tx)))"
  by (auto simp: writeLine_def std_env_fields Let_def split: sum.splits)

lemma std_csv:
  "csv_read_line ''r1,KSEA,2024-01-01T00:00:00Z'' = Inr [''r1'', ''KSEA'', ''2024-01-01T00:00:00Z'']"
  "csv_read_line ''r2,KSEA,2024-01-01T00:00:00Z'' = Inr [''r2'', ''KSEA'', ''2024-01-01T00:00:00Z'']"
  "csv_read_line ''r3,KPDX,2024-01-01T00:05:00Z'' = Inr [''r3'', ''KPDX'', ''2024-01-01T00:05:00Z'']"
  "csv_read_line ''r4,KSEA,2024-13-40'' = Inr [''r4'', ''KSEA'', ''2024-13-40'']"
  "csv_read_line ''r5,KSEA'' = Inr [''r5'', ''KSEA'']"
  "csv_read_line ''r6,,2024-01-01T00:00:00Z'' = Inr [''r6'', '''', ''2024-01-01T00:00:00Z'']"
  by (simp_all add: csv_read_line_def cons_field_def)

lemma std_time:
  "time_parse_rfc3339 ''2024-01-01T00:00:00Z'' = Inr (2024, 1, 1, 0, 0, 0, 0, 0)"
  "time_parse_rfc3339 ''2024-01-01T00:05:00Z'' = Inr (2024, 1, 1, 0, 5, 0, 0, 0)"
  "time_parse_rfc3339 ''2024-13-40'' = Inl (External ''month out of range'')"
  by (simp_all add: time_parse_defs cong: bind_err_weak_cong)

lemma std_fileToDB:
  "files w fname = Some (good_header @ ls, fe) \<Longrightarrow>
   fileToDB std_env w fname =
     (case writeLines std_env (db w) ls of
        (Failure err, tx) \<Rightarrow> (Failure err, w)
      | (Panic, tx) \<Rightarrow> (Panic, w)
      | (Success, tx) \<Rightarrow>
          (case fe of
             Some err \<Rightarrow> (Failure (ReadingFile err), w)
           | None \<Rightarrow> (Success, w\<lparr>db := tx\<rparr>)))"
proof -
  assume f: "files w fname = Some (good_header @ ls, fe)"
  have "length good_header = length metarHeaders" by (simp add: good_header_def metarHeaders_def)
  then have d: "drop (length metarHeaders) (good_header @ ls) = ls" by simp
  have "fileToDB std_env w fname =
     (case writeLines std_env (db w) (drop (length metarHeaders) (good_header @ ls)) of
        (Failure err, tx) \<Rightarrow> (Failure err, w)
      | (Panic, tx) \<Rightarrow> (Panic, w)
      | (Success, tx) \<Rightarrow>
          (case fe of
             Some err \<Rightarrow> (Failure (ReadingFile err), w)
           | None \<Rightarrow>
               (case commit_err std_env tx of
                  Some err \<Rightarrow> (Failure (Committing err), w)
                | None \<Rightarrow> (Success, w\<lparr>db := tx\<rparr>))))"
    by (rule fileToDB_eq[OF f]) (simp_all add: std_env_fields checkLines_good_header)
  then show ?thesis unfolding d
    by (simp add: std_env_fields split: prod.splits result.splits option.splits)
qed

lemma drop_good_header: "drop (length metarHeaders) (good_header @ ls) = ls"
  by (simp add: good_header_def metarHeaders_def)

subsection \<open>The header that is not checked in full\<close>

text \<open>
  C4. The first five patterns are anchored with \<open>^\<close> and \<open>$\<close>; the sixth is not, so it
  matches every line that contains the column names. A file whose sixth line is the column
  names with a character added on each side passes the header check, and the line after
  it is stored.
\<close>

theorem checkLines_accepts_padded_column_line:
  "checkLines metarHeaders
     ([''No errors'', ''No warnings'', ''7 ms'', ''data source=metars'', ''2 results'',
       ''X'' @ column_names @ ''Y''], None) = (None, ([], None))
   \<and> fileToDB std_env
       \<lparr>files = [''f'' \<mapsto>
          ([''No errors'', ''No warnings'', ''7 ms'', ''data source=metars'', ''2 results'',
            ''X'' @ column_names @ ''Y'', ''r1,KSEA,2024-01-01T00:00:00Z''], None)],
        db = []\<rparr> ''f''
     = (Success,
        \<lparr>files = [''f'' \<mapsto>
          ([''No errors'', ''No warnings'', ''7 ms'', ''data source=metars'', ''2 results'',
            ''X'' @ column_names @ ''Y'', ''r1,KSEA,2024-01-01T00:00:00Z''], None)],
         db = [\<lparr>station = ''KSEA'', time = (2024, 1, 1, 0, 0, 0, 0, 0),
                 csv_parts = [''r1'', ''KSEA'', ''2024-01-01T00:00:00Z'']\<rparr>]\<rparr>)"
proof -
  let ?r1 = "''r1,KSEA,2024-01-01T00:00:00Z''"
  let ?hd = "[''No errors'', ''No warnings'', ''7 ms'', ''data source=metars'', ''2 results'',
       ''X'' @ column_names @ ''Y'']"
  let ?w = "\<lparr>files = [''f'' \<mapsto> (?hd @ [?r1], None)], db = ([] :: gotime table)\<rparr>"
  have sub: "sublist column_names (''X'' @ column_names @ ''Y'')"
    by (rule sublist_appendI)
  then have pass: "checkLines metarHeaders (?hd @ rest, fe) = (None, (rest, fe))" for rest fe
    by (simp only: append_Cons append_Nil checkLines_five if_True)
  have "drop (length metarHeaders) (?hd @ [?r1]) = [?r1]"
    by (simp add: metarHeaders_def)
  moreover have "files ?w ''f'' = Some (?hd @ [?r1], None)" by simp
  ultimately have "fileToDB std_env ?w ''f''
      = (Success, ?w\<lparr>db := [\<lparr>station = ''KSEA'', time = (2024, 1, 1, 0, 0, 0, 0, 0),
                 csv_parts = [''r1'', ''KSEA'', ''2024-01-01T00:00:00Z'']\<rparr>]\<rparr>)"
    using fileToDB_eq[of ?w "''f''" "?hd @ [?r1]" None std_env] pass[of "[?r1]" None]
    by (simp add: std_env_fields std_writeLine std_csv std_time del: append_Cons append_Nil)
  with pass[of "[]" None] show ?thesis by simp
qed

subsection \<open>Atomicity and rejected lines\<close>

text \<open>
  C1. Storing a file is all-or-nothing. Whenever \<open>fileToDB\<close> does not succeed, the world
  after it is the world before it: the rollback leaves the table as it was. And it does not
  succeed when reading the file stops with an error, when some line after the header cannot
  be written in any state of the transaction (its CSV or its timestamp does not parse), or
  when the write of a line fails in the state the lines before it have produced.
\<close>

theorem fileToDB_all_or_nothing:
  "(fst (fileToDB E w fname) \<noteq> Success \<longrightarrow> snd (fileToDB E w fname) = w)
   \<and> (files w fname = Some (ls, fe)
        \<and> (fe \<noteq> None
            \<or> (\<exists>line\<in>set (drop (length metarHeaders) ls). \<forall>tx. fst (writeLine E tx line) \<noteq> Success))
      \<longrightarrow> fst (fileToDB E w fname) \<noteq> Success)
   \<and> (files w fname = Some (ls, fe) \<and> drop (length metarHeaders) ls = pre @ line # post
        \<and> writeLines E (db w) pre = (Success, tx) \<and> fst (writeLine E tx line) \<noteq> Success
      \<longrightarrow> fst (fileToDB E w fname) \<noteq> Success)"
  using fileToDB_unchanged[of E w fname] fileToDB_bad_data[of w fname ls fe E]
    fileToDB_failing_line[of w fname ls fe pre line post E tx]
  by blast

theorem fileToDB_all_or_nothing_witness:
  "fst (fileToDB std_env
     \<lparr>files = [''f'' \<mapsto> (good_header @ [''r1,KSEA,2024-01-01T00:00:00Z'', ''r4,KSEA,2024-13-40''], None)],
      db = []\<rparr> ''f'') \<noteq> Success
   \<and> snd (fileToDB std_env
     \<lparr>files = [''f'' \<mapsto> (good_header @ [''r1,KSEA,2024-01-01T00:00:00Z'', ''r4,KSEA,2024-13-40''], None)],
      db = []\<rparr> ''f'')
     = \<lparr>files = [''f'' \<mapsto> (good_header @ [''r1,KSEA,2024-01-01T00:00:00Z'', ''r4,KSEA,2024-13-40''], None)],
        db = []\<rparr>"
proof -
  let ?r1 = "''r1,KSEA,2024-01-01T00:00:00Z''" and ?r4 = "''r4,KSEA,2024-13-40''"
  let ?ls = "good_header @ [?r1, ?r4]"
  let ?w = "\<lparr>files = [''f'' \<mapsto> (?ls, None)], db = ([] :: gotime table)\<rparr>"
  let ?tx = "[\<lparr>station = ''KSEA'', time = (2024, 1, 1, 0, 0, 0, 0, 0),
               csv_parts = [''r1'', ''KSEA'', ''2024-01-01T00:00:00Z'']\<rparr>] :: gotime table"
  have bad: "\<forall>tx. fst (writeLine std_env tx ?r4) \<noteq> Success"
    by (simp add: std_writeLine std_csv std_time)
  have h2: "files ?w ''f'' = Some (?ls, None)
      \<and> (None \<noteq> (None :: error option)
          \<or> (\<exists>line\<in>set (drop (length metarHeaders) ?ls). \<forall>tx. fst (writeLine std_env tx line) \<noteq> Success))"
    using bad by (simp add: drop_good_header del: drop_append)
  have h3: "files ?w ''f'' = Some (?ls, None) \<and> drop (length metarHeaders) ?ls = [?r1] @ ?r4 # []
      \<and> writeLines std_env (db ?w) [?r1] = (Success, ?tx) \<and> fst (writeLine std_env ?tx ?r4) \<noteq> Success"
    using bad by (simp add: drop_good_header std_writeLine std_csv std_time del: drop_append)
  from h2 h3 fileToDB_all_or_nothing[of std_env ?w "''f''" ?ls None "[?r1]" ?r4 "[]" ?tx]
  show ?thesis by blast
qed

text \<open>
  C6, as stated: a line whose field 2 is not a valid RFC 3339 timestamp is rejected and the
  transaction of its file aborts. The code asks \<open>time.Parse\<close>, which takes more than
  RFC 3339 allows, an hour of one digit among the rest. The field \<open>2024-01-01T1:00:00Z\<close> is
  not a date-time of RFC 3339; the line that holds it is written, and its file is
  committed.
\<close>

theorem lenient_time_is_written:
  "\<not> rfc3339_valid ''2024-01-01T1:00:00Z''
   \<and> writeLine std_env [] ''r7,KSEA,2024-01-01T1:00:00Z''
     = (Success,
        [\<lparr>station = ''KSEA'', time = (2024, 1, 1, 1, 0, 0, 0, 0),
           csv_parts = [''r7'', ''KSEA'', ''2024-01-01T1:00:00Z'']\<rparr>])
   \<and> fileToDB std_env
       \<lparr>files = [''f'' \<mapsto> (good_header @ [''r7,KSEA,2024-01-01T1:00:00Z''], None)], db = []\<rparr> ''f''
     = (Success,
        \<lparr>files = [''f'' \<mapsto> (good_header @ [''r7,KSEA,2024-01-01T1:00:00Z''], None)],
         db = [\<lparr>station = ''KSEA'', time = (2024, 1, 1, 1, 0, 0, 0, 0),
                 csv_parts = [''r7'', ''KSEA'', ''2024-01-01T1:00:00Z'']\<rparr>]\<rparr>)"
proof -
  have v: "\<not> rfc3339_valid ''2024-01-01T1:00:00Z''"
    by (simp add: rfc3339_valid_def)
  have c: "csv_read_line ''r7,KSEA,2024-01-01T1:00:00Z'' = Inr [''r7'', ''KSEA'', ''2024-01-01T1:00:00Z'']"
    by (simp add: csv_read_line_def cons_field_def)
  have t: "time_parse_rfc3339 ''2024-01-01T1:00:00Z'' = Inr (2024, 1, 1, 1, 0, 0, 0, 0)"
    by (simp add: time_parse_defs cong: bind_err_weak_cong)
  have w: "writeLine std_env tx ''r7,KSEA,2024-01-01T1:00:00Z''
     = (Success,
        upsert \<lparr>station = ''KSEA'', time = (2024, 1, 1, 1, 0, 0, 0, 0),
           csv_parts = [''r7'', ''KSEA'', ''2024-01-01T1:00:00Z'']\<rparr> tx)" for tx
    by (simp add: std_writeLine c t)
  from v w show ?thesis by (simp add: std_fileToDB)
qed

text \<open>
  C6, amended. A line whose field 2 \<open>time.Parse(time.RFC3339, _)\<close> rejects is refused by
  \<open>writeLine\<close> with an error holding that field as it stands, and the transaction is left
  as it was. A file with such a line after its header is not stored: \<open>fileToDB\<close> fails and
  the world is unchanged. When the lines before it are written without error, the error of
  \<open>fileToDB\<close> is the one of that line.
\<close>

theorem bad_time_rejected:
  "(csv_read E line = Inr parts \<and> 2 < length parts \<and> time_parse E (parts ! 2) = Inl err \<longrightarrow>
      writeLine E tx line = (Failure (BadTime (parts ! 2) err), tx))
   \<and> (csv_read E line = Inr parts \<and> 2 < length parts \<and> time_parse E (parts ! 2) = Inl err
       \<and> files w fname = Some (ls, fe) \<and> line \<in> set (drop (length metarHeaders) ls) \<longrightarrow>
      fst (fileToDB E w fname) \<noteq> Success \<and> snd (fileToDB E w fname) = w)
   \<and> (csv_read E line = Inr parts \<and> 2 < length parts \<and> time_parse E (parts ! 2) = Inl err
       \<and> files w fname = Some (ls, fe) \<and> open_err E fname = None
       \<and> fst (checkLines metarHeaders (ls, fe)) = None \<and> begin_err E = None
       \<and> drop (length metarHeaders) ls = pre @ line # post
       \<and> writeLines E (db w) pre = (Success, tx') \<longrightarrow>
      fileToDB E w fname = (Failure (WritingLine line (BadTime (parts ! 2) err)), w))"
proof (intro conjI impI)
  assume a: "csv_read E line = Inr parts \<and> 2 < length parts \<and> time_parse E (parts ! 2) = Inl err"
  then show "writeLine E tx line = (Failure (BadTime (parts ! 2) err), tx)"
    by (simp add: writeLine_def)
next
  assume a: "csv_read E line = Inr parts \<and> 2 < length parts \<and> time_parse E (parts ! 2) = Inl err
       \<and> files w fname = Some (ls, fe) \<and> line \<in> set (drop (length metarHeaders) ls)"
  then have "\<forall>tx. fst (writeLine E tx line) \<noteq> Success" by (simp add: writeLine_def)
  with a have "fst (fileToDB E w fname) \<noteq> Success"
    using fileToDB_bad_data[of w fname ls fe E] by blast
  then show "fst (fileToDB E w fname) \<noteq> Success" "snd (fileToDB E w fname) = w"
    by (simp_all add: fileToDB_unchanged)
next
  assume a: "csv_read E line = Inr parts \<and> 2 < length parts \<and> time_parse E (parts ! 2) = Inl err
       \<and> files w fname = Some (ls, fe) \<and> open_err E fname = None
       \<and> fst (checkLines metarHeaders (ls, fe)) = None \<and> begin_err E = None
       \<and> drop (length metarHeaders) ls = pre @ line # post
       \<and> writeLines E (db w) pre = (Success, tx')"
  then have wl: "writeLine E tx' line = (Failure (BadTime (parts ! 2) err), tx')"
    by (simp add: writeLine_def)
  from a have "writeLines E (db w) (pre @ line # post) = writeLines E tx' (line # post)"
    by (simp add: writeLines_append)
  with wl a have "writeLines E (db w) (drop (length metarHeaders) ls)
      = (Failure (WritingLine line (BadTime (parts ! 2) err)), tx')" by simp
  with a fileToDB_eq[of w fname ls fe E]
  show "fileToDB E w fname = (Failure (WritingLine line (BadTime (parts ! 2) err)), w)" by simp
qed

theorem bad_time_rejected_witness:
  "writeLine std_env [] ''r4,KSEA,2024-13-40''
     = (Failure (BadTime ''2024-13-40'' (External ''month out of range'')), [])
   \<and> fileToDB std_env
       \<lparr>files = [''f'' \<mapsto> (good_header @ [''r1,KSEA,2024-01-01T00:00:00Z'', ''r4,KSEA,2024-13-40''], None)],
        db = []\<rparr> ''f''
     = (Failure (WritingLine ''r4,KSEA,2024-13-40'' (BadTime ''2024-13-40'' (External ''month out of range''))),
        \<lparr>files = [''f'' \<mapsto> (good_header @ [''r1,KSEA,2024-01-01T00:00:00Z'', ''r4,KSEA,2024-13-40''], None)],
         db = []\<rparr>)"
proof -
  let ?r1 = "''r1,KSEA,2024-01-01T00:00:00Z''" and ?r4 = "''r4,KSEA,2024-13-40''"
  let ?ls = "good_header @ [?r1, ?r4]"
  let ?w = "\<lparr>files = [''f'' \<mapsto> (?ls, None)], db = ([] :: gotime table)\<rparr>"
  let ?tx = "[\<lparr>station = ''KSEA'', time = (2024, 1, 1, 0, 0, 0, 0, 0),
               csv_parts = [''r1'', ''KSEA'', ''2024-01-01T00:00:00Z'']\<rparr>] :: gotime table"
  let ?parts = "[''r4'', ''KSEA'', ''2024-13-40'']"
  have p: "csv_read std_env ?r4 = Inr ?parts \<and> 2 < length ?parts
      \<and> time_parse std_env (?parts ! 2) = Inl (External ''month out of range'')"
    by (simp add: std_env_fields std_csv std_time)
  have f: "files ?w ''f'' = Some (?ls, None) \<and> ?r4 \<in> set (drop (length metarHeaders) ?ls)"
    by (simp add: drop_good_header del: drop_append)
  have g: "open_err std_env ''f'' = None \<and> fst (checkLines metarHeaders (?ls, None)) = None
      \<and> begin_err std_env = None \<and> drop (length metarHeaders) ?ls = [?r1] @ ?r4 # []
      \<and> writeLines std_env (db ?w) [?r1] = (Success, ?tx)"
    by (simp add: std_env_fields checkLines_good_header drop_good_header std_writeLine std_csv std_time
        del: drop_append)
  from p f g
    bad_time_rejected[of std_env ?r4 ?parts "External ''month out of range''" "[]" ?w "''f''" ?ls None
      "[?r1]" "[]" ?tx]
  show ?thesis by simp
qed

text \<open>
  C10. A line that the CSV reader accepts with fewer than three fields makes \<open>writeLine\<close>
  panic: it indexes fields 1 and 2 without looking at the number of fields. The panic is
  not an error value; it leaves \<open>fileToDB\<close> through the deferred rollback.
\<close>

theorem short_record_panics:
  "(csv_read E line = Inr parts \<and> length parts < 3 \<longrightarrow> writeLine E tx line = (Panic, tx))
   \<and> (csv_read E line = Inr parts \<and> length parts < 3
       \<and> files w fname = Some (ls, fe) \<and> open_err E fname = None
       \<and> fst (checkLines metarHeaders (ls, fe)) = None \<and> begin_err E = None
       \<and> drop (length metarHeaders) ls = pre @ line # post
       \<and> writeLines E (db w) pre = (Success, tx') \<longrightarrow>
      fileToDB E w fname = (Panic, w))"
proof (intro conjI impI)
  assume "csv_read E line = Inr parts \<and> length parts < 3"
  then show "writeLine E tx line = (Panic, tx)" by (auto simp: writeLine_def)
next
  assume a: "csv_read E line = Inr parts \<and> length parts < 3
       \<and> files w fname = Some (ls, fe) \<and> open_err E fname = None
       \<and> fst (checkLines metarHeaders (ls, fe)) = None \<and> begin_err E = None
       \<and> drop (length metarHeaders) ls = pre @ line # post
       \<and> writeLines E (db w) pre = (Success, tx')"
  then have wl: "writeLine E tx' line = (Panic, tx')" by (auto simp: writeLine_def)
  from a have "writeLines E (db w) (pre @ line # post) = writeLines E tx' (line # post)"
    by (simp add: writeLines_append)
  with wl a have "writeLines E (db w) (drop (length metarHeaders) ls) = (Panic, tx')" by simp
  with a fileToDB_eq[of w fname ls fe E] show "fileToDB E w fname = (Panic, w)" by simp
qed

theorem short_record_panics_witness:
  "writeLine std_env [] ''r5,KSEA'' = (Panic, [])
   \<and> fileToDB std_env \<lparr>files = [''f'' \<mapsto> (good_header @ [''r5,KSEA''], None)], db = []\<rparr> ''f''
     = (Panic, \<lparr>files = [''f'' \<mapsto> (good_header @ [''r5,KSEA''], None)], db = []\<rparr>)"
proof -
  let ?r5 = "''r5,KSEA''"
  let ?ls = "good_header @ [?r5]"
  let ?w = "\<lparr>files = [''f'' \<mapsto> (?ls, None)], db = ([] :: gotime table)\<rparr>"
  have p: "csv_read std_env ?r5 = Inr [''r5'', ''KSEA''] \<and> length [''r5'', ''KSEA''] < 3"
    by (simp add: std_env_fields std_csv)
  have g: "files ?w ''f'' = Some (?ls, None) \<and> open_err std_env ''f'' = None
      \<and> fst (checkLines metarHeaders (?ls, None)) = None
      \<and> begin_err std_env = None \<and> drop (length metarHeaders) ?ls = [] @ ?r5 # []
      \<and> writeLines std_env (db ?w) [] = (Success, [])"
    by (simp add: std_env_fields checkLines_good_header drop_good_header del: drop_append)
  from p g short_record_panics[of std_env ?r5 "[''r5'', ''KSEA'']" "[]" ?w "''f''" ?ls None "[]" "[]" "[]"]
  show ?thesis by simp
qed

text \<open>
  C9, as stated: the station of a line that is accepted and written is not empty. The code
  has no such check. The line \<open>r6,,2024-01-01T00:00:00Z\<close> is written with the empty
  station.
\<close>

theorem empty_station_is_written:
  "writeLine std_env [] ''r6,,2024-01-01T00:00:00Z''
     = (Success, [\<lparr>station = '''', time = (2024, 1, 1, 0, 0, 0, 0, 0),
                   csv_parts = [''r6'', '''', ''2024-01-01T00:00:00Z'']\<rparr>])"
  by (simp add: std_writeLine std_csv std_time)

text \<open>
  C9, amended. The station of a line that is written is field 1 of the record the CSV reader
  returns, taken as it is: a line is written exactly when it has at least three fields, its
  field 2 parses as a time and the insert does not fail, whatever its field 1 is.
\<close>

theorem station_is_field_one:
  "(writeLine E tx line = (Success, tx') \<longrightarrow>
      (\<exists>parts t. csv_read E line = Inr parts \<and> 2 < length parts
         \<and> time_parse E (parts ! 2) = Inr t
         \<and> tx' = upsert \<lparr>station = parts ! 1, time = t, csv_parts = parts\<rparr> tx))
   \<and> (csv_read E line = Inr parts \<and> 2 < length parts \<and> time_parse E (parts ! 2) = Inr t
       \<and> exec_err E tx \<lparr>station = parts ! 1, time = t, csv_parts = parts\<rparr> = None \<longrightarrow>
      writeLine E tx line
        = (Success, upsert \<lparr>station = parts ! 1, time = t, csv_parts = parts\<rparr> tx))"
proof (intro conjI impI)
  assume "writeLine E tx line = (Success, tx')"
  then obtain r where "line_row E line = Some r" "tx' = upsert r tx"
    by (auto simp: writeLine_Success_iff)
  then show "\<exists>parts t. csv_read E line = Inr parts \<and> 2 < length parts
         \<and> time_parse E (parts ! 2) = Inr t
         \<and> tx' = upsert \<lparr>station = parts ! 1, time = t, csv_parts = parts\<rparr> tx"
    by (auto simp: line_row_Some_iff)
next
  assume "csv_read E line = Inr parts \<and> 2 < length parts \<and> time_parse E (parts ! 2) = Inr t
       \<and> exec_err E tx \<lparr>station = parts ! 1, time = t, csv_parts = parts\<rparr> = None"
  then show "writeLine E tx line
        = (Success, upsert \<lparr>station = parts ! 1, time = t, csv_parts = parts\<rparr> tx)"
    by (simp add: writeLine_def)
qed

theorem station_is_field_one_witness:
  "writeLine std_env [] ''r1,KSEA,2024-01-01T00:00:00Z''
     = (Success, [\<lparr>station = ''KSEA'', time = (2024, 1, 1, 0, 0, 0, 0, 0),
                   csv_parts = [''r1'', ''KSEA'', ''2024-01-01T00:00:00Z'']\<rparr>])
   \<and> (\<exists>parts t. csv_read std_env ''r1,KSEA,2024-01-01T00:00:00Z'' = Inr parts \<and> 2 < length parts
         \<and> time_parse std_env (parts ! 2) = Inr t
         \<and> [\<lparr>station = ''KSEA'', time = (2024, 1, 1, 0, 0, 0, 0, 0),
              csv_parts = [''r1'', ''KSEA'', ''2024-01-01T00:00:00Z'']\<rparr>]
           = upsert \<lparr>station = parts ! 1, time = t, csv_parts = parts\<rparr> [])"
proof -
  let ?r1 = "''r1,KSEA,2024-01-01T00:00:00Z''"
  let ?parts = "[''r1'', ''KSEA'', ''2024-01-01T00:00:00Z'']"
  let ?row = "\<lparr>station = ''KSEA'', time = (2024, 1, 1, 0, 0, 0, 0, 0) :: gotime, csv_parts = ?parts\<rparr>"
  have h: "csv_read std_env ?r1 = Inr ?parts \<and> 2 < length ?parts
      \<and> time_parse std_env (?parts ! 2) = Inr (2024, 1, 1, 0, 0, 0, 0, 0)
      \<and> exec_err std_env [] \<lparr>station = ?parts ! 1, time = (2024, 1, 1, 0, 0, 0, 0, 0), csv_parts = ?parts\<rparr> = None"
    by (simp add: std_env_fields std_csv std_time)
  note inst = station_is_field_one[of std_env "[]" ?r1 "[?row]" ?parts "(2024, 1, 1, 0, 0, 0, 0, 0)"]
  from h inst have 1: "writeLine std_env [] ?r1 = (Success, [?row])" by simp
  with inst show ?thesis by blast
qed

subsection \<open>Writing the same key again\<close>

lemma fileToDB_Success_rows:
  assumes "fileToDB E w fname = (Success, w')"
  shows "\<exists>ls rs. files w fname = Some (ls, None)
           \<and> map (line_row E) (drop (length metarHeaders) ls) = map Some rs
           \<and> w' = w\<lparr>db := fold upsert rs (db w)\<rparr>"
proof -
  from assms have "fst (fileToDB E w fname) = Success" by simp
  from fileToDB_SuccessD[OF this] assms obtain ls tx where
    f: "files w fname = Some (ls, None)"
    and wl: "writeLines E (db w) (drop (length metarHeaders) ls) = (Success, tx)"
    and w': "w' = w\<lparr>db := tx\<rparr>" by auto
  from writeLines_Success_rows[OF wl] obtain rs where
    "map (line_row E) (drop (length metarHeaders) ls) = map Some rs" "tx = fold upsert rs (db w)"
    by blast
  with f w' show ?thesis by blast
qed

lemma map_Some_eq: "map Some xs = map Some ys \<Longrightarrow> xs = ys"
  by (simp add: inj_map_eq_map)

text \<open>
  C3. Storing a file twice gives the same world as storing it once. When \<open>fileToDB\<close> has
  succeeded on a file, running it again on the same file with the same two parsers leaves
  the world it finds, rows and their order included, whether the second run commits or is
  rolled back; and when the file system and the database report no error the second time,
  the second run succeeds.
\<close>

theorem fileToDB_idempotent:
  "fileToDB E w fname = (Success, w1) \<and> csv_read E' = csv_read E \<and> time_parse E' = time_parse E
   \<longrightarrow> snd (fileToDB E' w1 fname) = w1
       \<and> (open_err E' fname = None \<and> begin_err E' = None \<and> (\<forall>tx r. exec_err E' tx r = None)
           \<and> (\<forall>tx. commit_err E' tx = None)
          \<longrightarrow> fileToDB E' w1 fname = (Success, w1))"
proof (intro impI)
  assume a: "fileToDB E w fname = (Success, w1) \<and> csv_read E' = csv_read E \<and> time_parse E' = time_parse E"
  then have lr: "line_row E' = line_row E" by (intro line_row_cong) simp_all
  from a fileToDB_Success_rows[of E w fname w1] obtain ls rs where
    f: "files w fname = Some (ls, None)"
    and rs: "map (line_row E) (drop (length metarHeaders) ls) = map Some rs"
    and w1: "w1 = w\<lparr>db := fold upsert rs (db w)\<rparr>" by blast
  from a have "fst (fileToDB E w fname) = Success" by simp
  from fileToDB_SuccessD[OF this] f have hdr: "fst (checkLines metarHeaders (ls, None)) = None"
    by auto
  from w1 f have f1: "files w1 fname = Some (ls, None)" by simp
  have idem: "w1\<lparr>db := fold upsert rs (db w1)\<rparr> = w1"
    by (simp add: w1 fold_upsert_idem)
  have 1: "snd (fileToDB E' w1 fname) = w1"
  proof (cases "fst (fileToDB E' w1 fname) = Success")
    case True
    then have "fileToDB E' w1 fname = (Success, snd (fileToDB E' w1 fname))"
      by (simp add: prod_eq_iff)
    from fileToDB_Success_rows[OF this] f1 lr obtain rs' where
      "map (line_row E) (drop (length metarHeaders) ls) = map Some rs'"
      "snd (fileToDB E' w1 fname) = w1\<lparr>db := fold upsert rs' (db w1)\<rparr>" by auto
    note r' = this
    from r'(1) rs have "rs' = rs" by (auto dest: map_Some_eq)
    with r'(2) idem show ?thesis by simp
  next
    case False
    then show ?thesis by (rule fileToDB_unchanged)
  qed
  have 2: "fileToDB E' w1 fname = (Success, w1)"
    if ok: "open_err E' fname = None \<and> begin_err E' = None \<and> (\<forall>tx r. exec_err E' tx r = None)
           \<and> (\<forall>tx. commit_err E' tx = None)"
  proof -
    from rs lr have "map (line_row E') (drop (length metarHeaders) ls) = map Some rs" by simp
    with ok have "writeLines E' (db w1) (drop (length metarHeaders) ls)
        = (Success, fold upsert rs (db w1))"
      by (simp add: writeLines_rows_Success)
    with ok f1 hdr idem fileToDB_eq[of w1 fname ls None E'] show ?thesis by simp
  qed
  from 1 2 show "snd (fileToDB E' w1 fname) = w1
       \<and> (open_err E' fname = None \<and> begin_err E' = None \<and> (\<forall>tx r. exec_err E' tx r = None)
           \<and> (\<forall>tx. commit_err E' tx = None)
          \<longrightarrow> fileToDB E' w1 fname = (Success, w1))" by blast
qed


lemma std_rows_written:
  "writeLines std_env [] [''r1,KSEA,2024-01-01T00:00:00Z'', ''r3,KPDX,2024-01-01T00:05:00Z'',
       ''r2,KSEA,2024-01-01T00:00:00Z'']
     = (Success,
        [\<lparr>station = ''KSEA'', time = (2024, 1, 1, 0, 0, 0, 0, 0),
           csv_parts = [''r2'', ''KSEA'', ''2024-01-01T00:00:00Z'']\<rparr>,
         \<lparr>station = ''KPDX'', time = (2024, 1, 1, 0, 5, 0, 0, 0),
           csv_parts = [''r3'', ''KPDX'', ''2024-01-01T00:05:00Z'']\<rparr>])"
  by (simp add: std_writeLine std_csv std_time key_def)

theorem fileToDB_idempotent_witness:
  "fileToDB std_env
     \<lparr>files = [''f'' \<mapsto> (good_header @ [''r1,KSEA,2024-01-01T00:00:00Z'',
         ''r3,KPDX,2024-01-01T00:05:00Z'', ''r2,KSEA,2024-01-01T00:00:00Z''], None)],
      db =
        [\<lparr>station = ''KSEA'', time = (2024, 1, 1, 0, 0, 0, 0, 0),
           csv_parts = [''r2'', ''KSEA'', ''2024-01-01T00:00:00Z'']\<rparr>,
         \<lparr>station = ''KPDX'', time = (2024, 1, 1, 0, 5, 0, 0, 0),
           csv_parts = [''r3'', ''KPDX'', ''2024-01-01T00:05:00Z'']\<rparr>]\<rparr> ''f''
   = (Success,
     \<lparr>files = [''f'' \<mapsto> (good_header @ [''r1,KSEA,2024-01-01T00:00:00Z'',
         ''r3,KPDX,2024-01-01T00:05:00Z'', ''r2,KSEA,2024-01-01T00:00:00Z''], None)],
      db =
        [\<lparr>station = ''KSEA'', time = (2024, 1, 1, 0, 0, 0, 0, 0),
           csv_parts = [''r2'', ''KSEA'', ''2024-01-01T00:00:00Z'']\<rparr>,
         \<lparr>station = ''KPDX'', time = (2024, 1, 1, 0, 5, 0, 0, 0),
           csv_parts = [''r3'', ''KPDX'', ''2024-01-01T00:05:00Z'']\<rparr>]\<rparr>)"
proof -
  let ?ls = "good_header @ [''r1,KSEA,2024-01-01T00:00:00Z'', ''r3,KPDX,2024-01-01T00:05:00Z'',
       ''r2,KSEA,2024-01-01T00:00:00Z'']"
  let ?tx = "[\<lparr>station = ''KSEA'', time = (2024, 1, 1, 0, 0, 0, 0, 0),
           csv_parts = [''r2'', ''KSEA'', ''2024-01-01T00:00:00Z'']\<rparr>,
         \<lparr>station = ''KPDX'', time = (2024, 1, 1, 0, 5, 0, 0, 0),
           csv_parts = [''r3'', ''KPDX'', ''2024-01-01T00:05:00Z'']\<rparr>] :: gotime table"
  let ?w = "\<lparr>files = [''f'' \<mapsto> (?ls, None)], db = ([] :: gotime table)\<rparr>"
  let ?w1 = "\<lparr>files = [''f'' \<mapsto> (?ls, None)], db = ?tx\<rparr>"
  have first: "fileToDB std_env ?w ''f'' = (Success, ?w1)"
    by (simp add: std_fileToDB std_rows_written del: writeLines.simps)
  have ok: "open_err std_env ''f'' = None \<and> begin_err std_env = None
      \<and> (\<forall>tx r. exec_err std_env tx r = None) \<and> (\<forall>tx. commit_err std_env tx = None)"
    by (simp add: std_env_fields)
  from first ok fileToDB_idempotent[of std_env ?w "''f''" ?w1 std_env]
  show ?thesis by blast
qed

text \<open>
  C2. In a table with at most one row for each (station, time), writing a line puts the
  line's fields in the row of its key: afterwards the rows with that key are exactly the one
  new row, the other rows are as before, the table still has at most one row for each key,
  and no row is added when the key was there. For two files: when a first file with a line
  of some key and then a second file with a line of the same key (the last such line of the
  second file) are stored, the table has one row for that key after the first file, and
  after the second exactly the row of the second file's line.
\<close>

theorem upsert_replaces_row:
  "(csv_read E line = Inr parts \<and> 2 < length parts \<and> time_parse E (parts ! 2) = Inr t
      \<and> exec_err E tx \<lparr>station = parts ! 1, time = t, csv_parts = parts\<rparr> = None
      \<and> distinct (map key tx)
    \<longrightarrow> (\<exists>tx'. writeLine E tx line = (Success, tx')
          \<and> filter (\<lambda>x. key x = (parts ! 1, t)) tx'
              = [\<lparr>station = parts ! 1, time = t, csv_parts = parts\<rparr>]
          \<and> filter (\<lambda>x. key x \<noteq> (parts ! 1, t)) tx' = filter (\<lambda>x. key x \<noteq> (parts ! 1, t)) tx
          \<and> distinct (map key tx')
          \<and> ((parts ! 1, t) \<in> key ` set tx \<longrightarrow> length tx' = length tx)))
   \<and> (distinct (map key (db w))
       \<and> fileToDB E w f1 = (Success, w1) \<and> fileToDB E w1 f2 = (Success, w2)
       \<and> files w f1 = Some (ls1, fe1) \<and> lineA \<in> set (drop (length metarHeaders) ls1)
       \<and> line_row E lineA = Some rA
       \<and> files w1 f2 = Some (ls2, fe2) \<and> drop (length metarHeaders) ls2 = pre @ lineB # post
       \<and> line_row E lineB = Some rB
       \<and> key rA = key rB
       \<and> (\<forall>l\<in>set post. \<forall>r. line_row E l = Some r \<longrightarrow> key r \<noteq> key rB)
    \<longrightarrow> length (filter (\<lambda>x. key x = key rB) (db w1)) = 1
        \<and> filter (\<lambda>x. key x = key rB) (db w2) = [rB])"
proof (intro conjI impI)
  let ?r = "\<lparr>station = parts ! 1, time = t, csv_parts = parts\<rparr>"
  assume a: "csv_read E line = Inr parts \<and> 2 < length parts \<and> time_parse E (parts ! 2) = Inr t
      \<and> exec_err E tx ?r = None \<and> distinct (map key tx)"
  then have wl: "writeLine E tx line = (Success, upsert ?r tx)" by (simp add: writeLine_def)
  have k: "key ?r = (parts ! 1, t)" by (simp add: key_def)
  from a have "filter (\<lambda>x. key x = key ?r) (upsert ?r tx) = [?r]"
    by (simp add: filter_upsert_same)
  moreover have "filter (\<lambda>x. key x \<noteq> key ?r) (upsert ?r tx) = filter (\<lambda>x. key x \<noteq> key ?r) tx"
    by (rule filter_upsert_rest)
  moreover from a have "distinct (map key (upsert ?r tx))" by (simp add: distinct_upsert)
  moreover have "key ?r \<in> key ` set tx \<longrightarrow> length (upsert ?r tx) = length tx"
    by (simp add: length_upsert)
  ultimately show "\<exists>tx'. writeLine E tx line = (Success, tx')
          \<and> filter (\<lambda>x. key x = (parts ! 1, t)) tx' = [?r]
          \<and> filter (\<lambda>x. key x \<noteq> (parts ! 1, t)) tx' = filter (\<lambda>x. key x \<noteq> (parts ! 1, t)) tx
          \<and> distinct (map key tx')
          \<and> ((parts ! 1, t) \<in> key ` set tx \<longrightarrow> length tx' = length tx)"
    using wl unfolding k by blast
next
  assume a: "distinct (map key (db w))
       \<and> fileToDB E w f1 = (Success, w1) \<and> fileToDB E w1 f2 = (Success, w2)
       \<and> files w f1 = Some (ls1, fe1) \<and> lineA \<in> set (drop (length metarHeaders) ls1)
       \<and> line_row E lineA = Some rA
       \<and> files w1 f2 = Some (ls2, fe2) \<and> drop (length metarHeaders) ls2 = pre @ lineB # post
       \<and> line_row E lineB = Some rB
       \<and> key rA = key rB
       \<and> (\<forall>l\<in>set post. \<forall>r. line_row E l = Some r \<longrightarrow> key r \<noteq> key rB)"
  from a fileToDB_Success_rows[of E w f1 w1] obtain rs1 where
    rs1: "map (line_row E) (drop (length metarHeaders) ls1) = map Some rs1"
    and w1: "w1 = w\<lparr>db := fold upsert rs1 (db w)\<rparr>" by auto
  from a have "Some rA \<in> set (map (line_row E) (drop (length metarHeaders) ls1))"
    by (metis image_eqI set_map)
  with rs1 have "rA \<in> set rs1" by auto
  then have "key rB \<in> key ` set (db w1)" using a w1 by (simp add: keys_fold_upsert) (metis image_eqI)
  moreover from a w1 have d1: "distinct (map key (db w1))" by (simp add: distinct_fold_upsert)
  ultimately have one: "length (filter (\<lambda>x. key x = key rB) (db w1)) = 1"
    by (simp add: one_row_per_key)
  from a fileToDB_Success_rows[of E w1 f2 w2] obtain rs2 where
    rs2: "map (line_row E) (drop (length metarHeaders) ls2) = map Some rs2"
    and w2: "w2 = w1\<lparr>db := fold upsert rs2 (db w1)\<rparr>" by auto
  from rs2 a have "map (line_row E) pre @ Some rB # map (line_row E) post = map Some rs2" by simp
  then obtain rpre rpost where sp: "rs2 = rpre @ rB # rpost" "map (line_row E) post = map Some rpost"
    by (auto simp: append_eq_map_conv Cons_eq_map_conv)
  have "\<forall>r'\<in>set rpost. key r' \<noteq> key rB"
  proof
    fix r' assume "r' \<in> set rpost"
    then have "Some r' \<in> set (map (line_row E) post)" unfolding sp(2) by simp
    then obtain l where "l \<in> set post" "line_row E l = Some r'" by auto
    with a show "key r' \<noteq> key rB" by blast
  qed
  with d1 have "filter (\<lambda>x. key x = key rB) (fold upsert (rpre @ rB # rpost) (db w1)) = [rB]"
    by (rule filter_fold_upsert_last)
  with sp w2 have "filter (\<lambda>x. key x = key rB) (db w2) = [rB]" by simp
  with one show "length (filter (\<lambda>x. key x = key rB) (db w1)) = 1"
    "filter (\<lambda>x. key x = key rB) (db w2) = [rB]" by simp_all
qed


theorem upsert_replaces_row_witness:
  "writeLine std_env
      [\<lparr>station = ''KSEA'', time = (2024, 1, 1, 0, 0, 0, 0, 0),
         csv_parts = [''r1'', ''KSEA'', ''2024-01-01T00:00:00Z'']\<rparr>]
      ''r2,KSEA,2024-01-01T00:00:00Z''
     = (Success,
        [\<lparr>station = ''KSEA'', time = (2024, 1, 1, 0, 0, 0, 0, 0),
           csv_parts = [''r2'', ''KSEA'', ''2024-01-01T00:00:00Z'']\<rparr>])
   \<and> filter (\<lambda>x. key x = (''KSEA'', (2024, 1, 1, 0, 0, 0, 0, 0)))
        (db (snd (fileToDB std_env
           (snd (fileToDB std_env
              \<lparr>files = [''f1'' \<mapsto> (good_header @ [''r1,KSEA,2024-01-01T00:00:00Z''], None),
                        ''f2'' \<mapsto> (good_header @ [''r2,KSEA,2024-01-01T00:00:00Z''], None)],
               db = []\<rparr> ''f1'')) ''f2'')))
     = [\<lparr>station = ''KSEA'', time = (2024, 1, 1, 0, 0, 0, 0, 0),
          csv_parts = [''r2'', ''KSEA'', ''2024-01-01T00:00:00Z'']\<rparr>]"
proof -
  let ?r1 = "''r1,KSEA,2024-01-01T00:00:00Z''" and ?r2 = "''r2,KSEA,2024-01-01T00:00:00Z''"
  let ?A = "[''r1'', ''KSEA'', ''2024-01-01T00:00:00Z'']"
  let ?B = "[''r2'', ''KSEA'', ''2024-01-01T00:00:00Z'']"
  let ?t = "(2024, 1, 1, 0, 0, 0, 0, 0) :: gotime"
  let ?rA = "\<lparr>station = ''KSEA'', time = ?t, csv_parts = ?A\<rparr>"
  let ?rB = "\<lparr>station = ''KSEA'', time = ?t, csv_parts = ?B\<rparr>"
  let ?fs = "[''f1'' \<mapsto> (good_header @ [?r1], None), ''f2'' \<mapsto> (good_header @ [?r2], None)]"
  let ?w = "\<lparr>files = ?fs, db = ([] :: gotime table)\<rparr>"
  let ?w1 = "\<lparr>files = ?fs, db = [?rA]\<rparr>"
  let ?w2 = "\<lparr>files = ?fs, db = [?rB]\<rparr>"
  have h1: "csv_read std_env ?r2 = Inr ?B \<and> 2 < length ?B \<and> time_parse std_env (?B ! 2) = Inr ?t
      \<and> exec_err std_env [?rA] \<lparr>station = ?B ! 1, time = ?t, csv_parts = ?B\<rparr> = None
      \<and> distinct (map key [?rA])"
    by (simp add: std_env_fields std_csv std_time)
  have first: "fileToDB std_env ?w ''f1'' = (Success, ?w1)"
    by (simp add: std_fileToDB std_writeLine std_csv std_time)
  have second: "fileToDB std_env ?w1 ''f2'' = (Success, ?w2)"
    by (simp add: std_fileToDB std_writeLine std_csv std_time key_def)
  have h2: "distinct (map key (db ?w))
       \<and> fileToDB std_env ?w ''f1'' = (Success, ?w1) \<and> fileToDB std_env ?w1 ''f2'' = (Success, ?w2)
       \<and> files ?w ''f1'' = Some (good_header @ [?r1], None)
       \<and> ?r1 \<in> set (drop (length metarHeaders) (good_header @ [?r1]))
       \<and> line_row std_env ?r1 = Some ?rA
       \<and> files ?w1 ''f2'' = Some (good_header @ [?r2], None)
       \<and> drop (length metarHeaders) (good_header @ [?r2]) = [] @ ?r2 # []
       \<and> line_row std_env ?r2 = Some ?rB
       \<and> key ?rA = key ?rB
       \<and> (\<forall>l\<in>set []. \<forall>r. line_row std_env l = Some r \<longrightarrow> key r \<noteq> key ?rB)"
    using first second
    by (simp add: drop_good_header std_rows key_def del: drop_append)
  note inst = upsert_replaces_row[of std_env ?r2 ?B ?t "[?rA]" ?w "''f1''" ?w1 "''f2''" ?w2
      "good_header @ [?r1]" None ?r1 ?rA "good_header @ [?r2]" None "[]" ?r2 "[]" ?rB]
  from inst h1 have "\<exists>tx'. writeLine std_env [?rA] ?r2 = (Success, tx')
      \<and> filter (\<lambda>x. key x = (?B ! 1, ?t)) tx' = [\<lparr>station = ?B ! 1, time = ?t, csv_parts = ?B\<rparr>]"
    by blast
  then have a: "writeLine std_env [?rA] ?r2 = (Success, [?rB])"
    by (auto simp: std_writeLine std_csv std_time key_def)
  from inst h2 have "filter (\<lambda>x. key x = key ?rB) (db ?w2) = [?rB]" by blast
  then have b: "filter (\<lambda>x. key x = (''KSEA'', ?t)) (db ?w2) = [?rB]" by (simp add: key_def)
  from a b first second show ?thesis by simp
qed

subsection \<open>Downloading and the driver\<close>

lemma downloadFile_db: "db (snd (downloadFile E w url fname)) = db w"
  by (auto simp: downloadFile_def os_OpenFile_excl_def split: sum.splits option.splits prod.splits)

lemma fileToDB_files: "files (snd (fileToDB E w fname)) = files w"
proof (cases "fst (fileToDB E w fname) = Success")
  case True
  from fileToDB_SuccessD[OF this] show ?thesis by auto
next
  case False
  then show ?thesis by (simp add: fileToDB_unchanged)
qed

lemma fileToDB_Success_exists:
  "fst (fileToDB E w fname) = Success \<Longrightarrow> files w fname \<noteq> None"
  using fileToDB_SuccessD[of E w fname] by auto

text \<open>
  C8. \<open>downloadFile\<close> fails with the status code in its error when the status is not 200
  (so for every status that is not a success); it fails when \<open>gzip.NewReader\<close> rejects
  the body; when the destination exists it fails and leaves the world, that file included,
  as it was, with the error of creating the file once the response has been accepted; and
  when the copy stops with an error it fails and what was copied stays in the new file.
\<close>

theorem downloadFile_errors:
  "(http_get E metarURL = Inr resp \<and> StatusCode resp \<noteq> 200 \<longrightarrow>
      downloadFile E w url fname = (Some (UnexpectedStatusCode (StatusCode resp)), w))
   \<and> (http_get E metarURL = Inr resp \<and> StatusCode resp = 200
       \<and> gzip_new_reader_err E (Body resp) = Some err \<longrightarrow>
      downloadFile E w url fname = (Some (GzipError err), w))
   \<and> (files w fname \<noteq> None \<longrightarrow>
      fst (downloadFile E w url fname) \<noteq> None \<and> snd (downloadFile E w url fname) = w)
   \<and> (http_get E metarURL = Inr resp \<and> StatusCode resp = 200
       \<and> gzip_new_reader_err E (Body resp) = None \<and> files w fname \<noteq> None \<longrightarrow>
      downloadFile E w url fname = (Some (ErrorCreatingFile fname ErrExist), w))
   \<and> (http_get E metarURL = Inr resp \<and> StatusCode resp = 200
       \<and> gzip_new_reader_err E (Body resp) = None \<and> files w fname = None
       \<and> create_err E fname = None \<and> io_copy E (Body resp) = (written, Some err) \<longrightarrow>
      downloadFile E w url fname
        = (Some (ErrorWritingToFile err), w\<lparr>files := (files w)(fname \<mapsto> written)\<rparr>))"
  by (auto simp: downloadFile_def os_OpenFile_excl_def split: sum.splits option.splits prod.splits)

theorem downloadFile_errors_witness:
  "downloadFile (std_env\<lparr>http_get := (\<lambda>url. Inr \<lparr>StatusCode = 404, Body = ''not found''\<rparr>)\<rparr>)
      \<lparr>files = Map.empty, db = []\<rparr> metarURL ''f''
     = (Some (UnexpectedStatusCode 404), \<lparr>files = Map.empty, db = []\<rparr>)
   \<and> downloadFile (std_env\<lparr>gzip_new_reader_err := (\<lambda>body. Some (External ''invalid header''))\<rparr>)
      \<lparr>files = Map.empty, db = []\<rparr> metarURL ''f''
     = (Some (GzipError (External ''invalid header'')), \<lparr>files = Map.empty, db = []\<rparr>)
   \<and> downloadFile std_env \<lparr>files = [''f'' \<mapsto> ([''old''], None)], db = []\<rparr> metarURL ''f''
     = (Some (ErrorCreatingFile ''f'' ErrExist), \<lparr>files = [''f'' \<mapsto> ([''old''], None)], db = []\<rparr>)
   \<and> downloadFile
        (std_env\<lparr>io_copy := (\<lambda>body. (([''No errors''], None), Some (External ''unexpected EOF'')))\<rparr>)
        \<lparr>files = Map.empty, db = []\<rparr> metarURL ''f''
     = (Some (ErrorWritingToFile (External ''unexpected EOF'')),
        \<lparr>files = [''f'' \<mapsto> ([''No errors''], None)], db = []\<rparr>)"
proof -
  let ?w = "\<lparr>files = Map.empty, db = ([] :: gotime table)\<rparr>"
  let ?wf = "\<lparr>files = [''f'' \<mapsto> ([''old''], None)], db = ([] :: gotime table)\<rparr>"
  let ?E1 = "std_env\<lparr>http_get := (\<lambda>url. Inr \<lparr>StatusCode = 404, Body = ''not found''\<rparr>)\<rparr>"
  let ?E2 = "std_env\<lparr>gzip_new_reader_err := (\<lambda>body. Some (External ''invalid header''))\<rparr>"
  let ?E4 = "std_env\<lparr>io_copy := (\<lambda>body. (([''No errors''], None), Some (External ''unexpected EOF'')))\<rparr>"
  have 1: "downloadFile ?E1 ?w metarURL ''f'' = (Some (UnexpectedStatusCode 404), ?w)"
    using downloadFile_errors[of ?E1 "\<lparr>StatusCode = 404, Body = ''not found''\<rparr>" ?w metarURL "''f''"]
    by simp
  have 2: "downloadFile ?E2 ?w metarURL ''f'' = (Some (GzipError (External ''invalid header'')), ?w)"
    using downloadFile_errors[of ?E2 "\<lparr>StatusCode = 200, Body = ''gz''\<rparr>" ?w metarURL "''f''"
        "External ''invalid header''"]
    by (simp add: std_env_fields)
  have 3: "downloadFile std_env ?wf metarURL ''f'' = (Some (ErrorCreatingFile ''f'' ErrExist), ?wf)"
    using downloadFile_errors[of std_env "\<lparr>StatusCode = 200, Body = ''gz''\<rparr>" ?wf metarURL "''f''"]
    by (simp add: std_env_fields)
  have 4: "downloadFile ?E4 ?w metarURL ''f''
     = (Some (ErrorWritingToFile (External ''unexpected EOF'')),
        \<lparr>files = [''f'' \<mapsto> ([''No errors''], None)], db = []\<rparr>)"
    using downloadFile_errors[of ?E4 "\<lparr>StatusCode = 200, Body = ''gz''\<rparr>" ?w metarURL "''f''"
        "External ''unexpected EOF''" "([''No errors''], None)"]
    by (simp add: std_env_fields)
  from 1 2 3 4 show ?thesis by blast
qed

text \<open>
  C7. With \<open>download\<close> set, a failed download makes \<open>run\<close> fail at once, with the table
  untouched. With \<open>download\<close> set and the file stored, the file is removed, and \<open>run\<close>
  fails with the error of the removal when there is one. When storing the file does not
  succeed, \<open>run\<close> does not succeed and the world is the one storing started from, the
  file in place. Without \<open>download\<close> the files after \<open>run\<close> are the files before it.
\<close>

theorem run_download_and_cleanup:
  "(download flags \<and> downloadFile E w metarURL (filename flags) = (Some err, w1) \<longrightarrow>
      run E flags w = (Failure (DownloadingFile err), w1) \<and> db w1 = db w)
   \<and> (download flags \<and> downloadFile E w metarURL (filename flags) = (None, w1)
       \<and> sql_open_err E = None \<and> fileToDB E w1 (filename flags) = (Success, w2) \<longrightarrow>
      (case remove_err E (filename flags) of
         None \<Rightarrow> run E flags w = (Success, w2\<lparr>files := (files w2)(filename flags := None)\<rparr>)
       | Some rerr \<Rightarrow> run E flags w = (Failure (RemovingFile rerr), w2)))
   \<and> (w1 = (if download flags then snd (downloadFile E w metarURL (filename flags)) else w)
       \<and> (download flags \<longrightarrow> fst (downloadFile E w metarURL (filename flags)) = None)
       \<and> sql_open_err E = None \<and> fst (fileToDB E w1 (filename flags)) \<noteq> Success \<longrightarrow>
      fst (run E flags w) \<noteq> Success \<and> snd (run E flags w) = w1)
   \<and> (\<not> download flags \<longrightarrow> files (snd (run E flags w)) = files w)"
proof (intro conjI impI)
  assume "download flags \<and> downloadFile E w metarURL (filename flags) = (Some err, w1)"
  then show "run E flags w = (Failure (DownloadingFile err), w1)" "db w1 = db w"
    using downloadFile_db[of E w metarURL "filename flags"] by (simp_all add: run_def)
next
  assume a: "download flags \<and> downloadFile E w metarURL (filename flags) = (None, w1)
       \<and> sql_open_err E = None \<and> fileToDB E w1 (filename flags) = (Success, w2)"
  then have "files w1 (filename flags) \<noteq> None"
    using fileToDB_Success_exists[of E w1 "filename flags"] by simp
  moreover from a have "files w2 = files w1"
    using fileToDB_files[of E w1 "filename flags"] by simp
  ultimately obtain f where "files w2 (filename flags) = Some f" by auto
  with a show "case remove_err E (filename flags) of
         None \<Rightarrow> run E flags w = (Success, w2\<lparr>files := (files w2)(filename flags := None)\<rparr>)
       | Some rerr \<Rightarrow> run E flags w = (Failure (RemovingFile rerr), w2)"
    by (simp add: run_def os_Remove_def split: option.splits)
next
  assume a: "w1 = (if download flags then snd (downloadFile E w metarURL (filename flags)) else w)
       \<and> (download flags \<longrightarrow> fst (downloadFile E w metarURL (filename flags)) = None)
       \<and> sql_open_err E = None \<and> fst (fileToDB E w1 (filename flags)) \<noteq> Success"
  then have d: "(if download flags then downloadFile E w metarURL (filename flags) else (None, w))
      = (None, w1)" by (auto simp: prod_eq_iff)
  obtain res w2 where f: "fileToDB E w1 (filename flags) = (res, w2)"
    by (cases "fileToDB E w1 (filename flags)")
  with a have "res \<noteq> Success" "w2 = w1" using fileToDB_unchanged[of E w1 "filename flags"] by auto
  with a d f show "fst (run E flags w) \<noteq> Success" "snd (run E flags w) = w1"
    by (cases res; simp add: run_def)+
next
  assume nd: "\<not> download flags"
  obtain res w2 where f: "fileToDB E w (filename flags) = (res, w2)"
    by (cases "fileToDB E w (filename flags)")
  then have "files w2 = files w" using fileToDB_files[of E w "filename flags"] by simp
  with nd f show "files (snd (run E flags w)) = files w"
    by (cases res; cases "sql_open_err E"; simp add: run_def)
qed


theorem run_download_and_cleanup_witness:
  "run (std_env\<lparr>http_get := (\<lambda>url. Inr \<lparr>StatusCode = 404, Body = ''not found''\<rparr>)\<rparr>)
      \<lparr>dbURL = ''db'', filename = ''f'', download = True\<rparr> \<lparr>files = Map.empty, db = []\<rparr>
     = (Failure (DownloadingFile (UnexpectedStatusCode 404)), \<lparr>files = Map.empty, db = []\<rparr>)
   \<and> run std_env \<lparr>dbURL = ''db'', filename = ''f'', download = True\<rparr> \<lparr>files = Map.empty, db = []\<rparr>
     = (Success,
        \<lparr>files = Map.empty,
         db = [\<lparr>station = ''KSEA'', time = (2024, 1, 1, 0, 0, 0, 0, 0),
                 csv_parts = [''r1'', ''KSEA'', ''2024-01-01T00:00:00Z'']\<rparr>]\<rparr>)
   \<and> fst (run std_env \<lparr>dbURL = ''db'', filename = ''f'', download = False\<rparr>
          \<lparr>files = [''f'' \<mapsto> (good_header @ [''r5,KSEA''], None)], db = []\<rparr>) \<noteq> Success
   \<and> snd (run std_env \<lparr>dbURL = ''db'', filename = ''f'', download = False\<rparr>
          \<lparr>files = [''f'' \<mapsto> (good_header @ [''r5,KSEA''], None)], db = []\<rparr>)
     = \<lparr>files = [''f'' \<mapsto> (good_header @ [''r5,KSEA''], None)], db = []\<rparr>"
proof -
  let ?w = "\<lparr>files = Map.empty, db = ([] :: gotime table)\<rparr>"
  let ?E1 = "std_env\<lparr>http_get := (\<lambda>url. Inr \<lparr>StatusCode = 404, Body = ''not found''\<rparr>)\<rparr>"
  let ?on = "\<lparr>dbURL = ''db'', filename = ''f'', download = True\<rparr>"
  let ?off = "\<lparr>dbURL = ''db'', filename = ''f'', download = False\<rparr>"
  let ?r1 = "''r1,KSEA,2024-01-01T00:00:00Z''"
  let ?row = "\<lparr>station = ''KSEA'', time = (2024, 1, 1, 0, 0, 0, 0, 0) :: gotime,
               csv_parts = [''r1'', ''KSEA'', ''2024-01-01T00:00:00Z'']\<rparr>"
  let ?w1 = "\<lparr>files = [''f'' \<mapsto> (good_header @ [?r1], None)], db = ([] :: gotime table)\<rparr>"
  let ?w2 = "\<lparr>files = [''f'' \<mapsto> (good_header @ [?r1], None)], db = [?row]\<rparr>"
  let ?wb = "\<lparr>files = [''f'' \<mapsto> (good_header @ [''r5,KSEA''], None)], db = ([] :: gotime table)\<rparr>"
  have d1: "download ?on \<and> downloadFile ?E1 ?w metarURL (filename ?on)
      = (Some (UnexpectedStatusCode 404), ?w)"
    by (simp add: downloadFile_def)
  have a: "run ?E1 ?on ?w = (Failure (DownloadingFile (UnexpectedStatusCode 404)), ?w)"
    using d1 run_download_and_cleanup[of ?on ?E1 ?w "UnexpectedStatusCode 404" ?w] by blast
  have d2: "download ?on \<and> downloadFile std_env ?w metarURL (filename ?on) = (None, ?w1)
      \<and> sql_open_err std_env = None \<and> fileToDB std_env ?w1 (filename ?on) = (Success, ?w2)"
    by (simp add: downloadFile_def os_OpenFile_excl_def std_env_fields std_fileToDB std_writeLine
        std_csv std_time)
  have b: "run std_env ?on ?w = (Success, \<lparr>files = Map.empty, db = [?row]\<rparr>)"
    using d2 run_download_and_cleanup[of ?on std_env ?w _ ?w1 ?w2]
    by (simp add: std_env_fields)
  have d3: "?wb = (if download ?off then snd (downloadFile std_env ?wb metarURL (filename ?off)) else ?wb)
       \<and> (download ?off \<longrightarrow> fst (downloadFile std_env ?wb metarURL (filename ?off)) = None)
       \<and> sql_open_err std_env = None \<and> fst (fileToDB std_env ?wb (filename ?off)) \<noteq> Success"
    by (simp add: std_env_fields std_fileToDB std_writeLine std_csv)
  have c: "fst (run std_env ?off ?wb) \<noteq> Success \<and> snd (run std_env ?off ?wb) = ?wb"
    using d3 run_download_and_cleanup[of ?off std_env ?wb _ ?wb] by blast
  from a b c show ?thesis by blast
qed

end
